theory Spec2Isabelle
  imports
    Complex_Main
    "HOL-Library.Char_ord"
    "HOL-Library.List_Lexorder"
    "HOL-Library.Product_Lexorder"
    "HOL-Library.Multiset"
begin

section \<open>Data model\<close>

text \<open>
  The program is a batch pipeline over two pandas tables.  A table is modelled by the list
  of its column labels together with its rows; a row carries one field for every column
  the program reads or writes, and the record extension (\<open>more\<close>) stands for all the
  other columns of the CSV file.  A field of a row is meaningful only when its label is
  in \<open>columns\<close>; reading a column whose label is missing raises \<open>KeyError\<close>.

  A missing cell (NaN) is \<open>None\<close>.  Numbers are rationals: the rounding of binary
  floating point is not modelled.  A string is a text; a character outside ASCII is held
  as the bytes of its UTF-8 form.
\<close>

datatype error =
    KeyError string
  | IndexError
  | FileNotFoundError string
  | UnicodeEncodeError

record flight =
  origin :: "string option"
  dest :: "string option"
  airline :: "string option"
  dep_time :: "rat option"
  dep_delay :: "rat option"
  wind_gust :: "rat option"
  route :: "string option"
  wind_group :: "string option"

record 'a dataframe =
  columns :: "string list"
  rows :: "'a flight_scheme list"

text \<open>\<open>df[c]\<close>: the column labelled \<open>c\<close>, read through the field \<open>f\<close> that holds it.\<close>

definition getitem ::
  "'a dataframe \<Rightarrow> string \<Rightarrow> ('a flight_scheme \<Rightarrow> 'v) \<Rightarrow> error + 'v list" where
  "getitem df c f =
     (if c \<in> set (columns df) then Inr (map f (rows df)) else Inl (KeyError c))"

text \<open>
  \<open>df[c] = vs\<close>: the column is replaced when the label exists and appended otherwise;
  \<open>upd v\<close> stores \<open>v\<close> in the field of one row.  The values come from columns of the same
  table, so there is one value per row.
\<close>

definition setitem ::
  "'a dataframe \<Rightarrow> string \<Rightarrow> ('v \<Rightarrow> 'a flight_scheme \<Rightarrow> 'a flight_scheme) \<Rightarrow> 'v list
     \<Rightarrow> 'a dataframe" where
  "setitem df c upd vs =
     df\<lparr>columns := (if c \<in> set (columns df) then columns df else columns df @ [c]),
        rows := map2 upd vs (rows df)\<rparr>"

text \<open>Elementwise \<open>+\<close> on string columns: a missing operand gives a missing result.\<close>

definition str_add :: "string option \<Rightarrow> string option \<Rightarrow> string option" where
  "str_add a b =
     (case a of None \<Rightarrow> None
      | Some x \<Rightarrow> (case b of None \<Rightarrow> None | Some y \<Rightarrow> Some (x @ y)))"

section \<open>The object store\<close>

text \<open>
  Tables are objects: \<open>preprocess_data\<close> and \<open>analyze_wind_impact\<close> assign a column of
  the table they are given, so the caller sees the change.  The store maps the identity
  of a table to its current value; \<open>stdout\<close> collects the texts that \<open>print\<close> wrote, and
  \<open>files\<close> the files written under the results directory, a text file as the text
  written to it.
\<close>

record wind_stat =
  ws_group :: string
  ws_mean :: "rat option"
  ws_count :: int

record wind_detail =
  wd_group :: string
  wd_origin :: string
  wd_mean :: "rat option"

datatype printed =
    Text string
  | SummaryTable "wind_stat list"
  | DetailTable "wind_detail list"

datatype content =
    TextFile string
  | Image "(string \<times> string) list"

record 'a world =
  csv :: "string \<Rightarrow> 'a dataframe option"
  heap :: "nat \<Rightarrow> 'a dataframe"
  next_ref :: nat
  stdout :: "printed list"
  files :: "string \<Rightarrow> content option"

section \<open>Preprocessor\<close>

text \<open>
  The assignment \<open>flights_df["route"] = flights_df["origin"] + "-" + flights_df["dest"]\<close>,
  as a function of the table.
\<close>

definition assign_route :: "'a dataframe \<Rightarrow> error + 'a dataframe" where
  "assign_route df =
     (case getitem df ''origin'' origin of
        Inl e \<Rightarrow> Inl e
      | Inr os \<Rightarrow>
          (case getitem df ''dest'' dest of
             Inl e \<Rightarrow> Inl e
           | Inr ds \<Rightarrow>
               Inr (setitem df ''route'' (\<lambda>v r. r\<lparr>route := v\<rparr>)
                      (map2 str_add (map (\<lambda>x. str_add x (Some ''-'')) os) ds))))"

text \<open>
  \<open>preprocess_data\<close> assigns the column in the table object it was given and returns
  this object.
\<close>

definition preprocess_data ::
  "nat \<Rightarrow> 'a world \<Rightarrow> (error + nat) \<times> 'a world" where
  "preprocess_data flights_df w =
     (case assign_route (heap w flights_df) of
        Inl e \<Rightarrow> (Inl e, w)
      | Inr df' \<Rightarrow> (Inr flights_df, w\<lparr>heap := (heap w)(flights_df := df')\<rparr>))"

section \<open>Aggregation primitives\<close>

text \<open>
  The aggregators are built from library calls: \<open>groupby(...).agg(...)\<close>,
  \<open>sort_values(..., ascending=False)\<close>, \<open>head(TOP_N)\<close> and \<open>iloc[0]\<close>.  Their models
  follow the documented behaviour of the library.
\<close>

definition TOP_N :: nat where
  "TOP_N = 9"

record agg_row =
  key :: string
  mean_dep_delay :: "rat option"
  total_cancellations :: int

definition dropna :: "'v option list \<Rightarrow> 'v list" where
  "dropna xs = [x. Some x \<leftarrow> xs]"

text \<open>
  The \<open>"mean"\<close> aggregation walks the values of a group, skips missing ones, and keeps a
  running sum and a running count of the others; with no observation the mean is NaN.
\<close>

primrec nan_acc :: "rat option list \<Rightarrow> rat \<times> nat" where
  "nan_acc [] = (0, 0)"
| "nan_acc (x # xs) =
     (case x of
        None \<Rightarrow> nan_acc xs
      | Some v \<Rightarrow> (case nan_acc xs of (s, n) \<Rightarrow> (v + s, Suc n)))"

definition series_mean :: "rat option list \<Rightarrow> rat option" where
  "series_mean xs =
     (case nan_acc xs of (s, n) \<Rightarrow> if n = 0 then None else Some (s / of_nat n))"

text \<open>The \<open>"count"\<close> aggregation: the number of values that are present.\<close>

definition series_count :: "'v option list \<Rightarrow> int" where
  "series_count xs = int (length (dropna xs))"

text \<open>\<open>lambda x: x.isna().sum()\<close>\<close>

definition isna_sum :: "'v option list \<Rightarrow> int" where
  "isna_sum x = int (length (filter (\<lambda>v. v = None) x))"

text \<open>
  \<open>groupby\<close> forms one group for each distinct value of the key, in ascending order of
  the key; rows whose key is missing belong to no group.
\<close>

definition group_keys :: "('k::linorder) option list \<Rightarrow> 'k list" where
  "group_keys ks = sort (remdups (dropna ks))"

text \<open>
  \<open>df.groupby(by).agg(mean_dep_delay=("dep_delay", "mean"),
     total_cancellations=("dep_time", lambda x: x.isna().sum())).reset_index()\<close>
\<close>

definition groupby_agg ::
  "string \<Rightarrow> ('a flight_scheme \<Rightarrow> string option) \<Rightarrow> 'a dataframe \<Rightarrow> error + agg_row list" where
  "groupby_agg by keyf df =
     (if by \<notin> set (columns df) then Inl (KeyError by)
      else if ''dep_delay'' \<notin> set (columns df) then Inl (KeyError ''dep_delay'')
      else if ''dep_time'' \<notin> set (columns df) then Inl (KeyError ''dep_time'')
      else Inr (map (\<lambda>k. let grp = filter (\<lambda>r. keyf r = Some k) (rows df) in
                       \<lparr>key = k,
                        mean_dep_delay = series_mean (map dep_delay grp),
                        total_cancellations = isna_sum (map dep_time grp)\<rparr>)
                  (group_keys (map keyf (rows df)))))"

text \<open>
  \<open>sort_values\<close> orders the rows by the positions that the library's \<open>nargsort\<close>
  returns.  \<open>nargsort\<close> sets the missing values aside, hands the present ones (reversed
  for a descending sort) to the sorting routine chosen by \<open>kind\<close>, reverses the outcome
  again for a descending sort, and puts the positions of the missing values last.

  The program does not pass \<open>kind\<close>, so the library's default routine runs.  That
  routine is not part of this repository; it is the parameter \<open>kind\<close>, a function from
  a list of values to the positions of these values in ascending order.
\<close>

definition nargsort :: "(rat list \<Rightarrow> nat list) \<Rightarrow> bool \<Rightarrow> rat option list \<Rightarrow> nat list" where
  "nargsort kind ascending items =
     (let idx = [0..<length items];
          non_nan_idx = filter (\<lambda>i. items ! i \<noteq> None) idx;
          nan_idx = filter (\<lambda>i. items ! i = None) idx;
          non_nans = dropna items;
          non_nans' = (if ascending then non_nans else rev non_nans);
          non_nan_idx' = (if ascending then non_nan_idx else rev non_nan_idx);
          indexer = map (\<lambda>j. non_nan_idx' ! j) (kind non_nans');
          indexer' = (if ascending then indexer else rev indexer)
      in indexer' @ nan_idx)"

definition sort_values ::
  "(rat list \<Rightarrow> nat list) \<Rightarrow> ('r \<Rightarrow> rat option) \<Rightarrow> bool \<Rightarrow> 'r list \<Rightarrow> 'r list" where
  "sort_values kind by ascending df =
     map (\<lambda>i. df ! i) (nargsort kind ascending (map by df))"

definition head :: "nat \<Rightarrow> 'r list \<Rightarrow> 'r list" where
  "head n df = take n df"

definition iloc0 :: "'r list \<Rightarrow> error + 'r" where
  "iloc0 df = (case df of [] \<Rightarrow> Inl IndexError | r # _ \<Rightarrow> Inr r)"

text \<open>The two sort columns of an aggregate table, as columns of numbers.\<close>

definition by_delay :: "agg_row \<Rightarrow> rat option" where
  "by_delay r = mean_dep_delay r"

definition by_cancellations :: "agg_row \<Rightarrow> rat option" where
  "by_cancellations r = Some (of_int (total_cancellations r))"

section \<open>Route and airline aggregators\<close>

text \<open>
  Both functions format the first row of a ranked view for a log line; \<open>iloc[0]\<close>
  raises \<open>IndexError\<close> on an empty view.  The text of the log line is not modelled.
\<close>

definition analyze_routes ::
  "(rat list \<Rightarrow> nat list) \<Rightarrow> 'a dataframe
     \<Rightarrow> error + (agg_row list \<times> agg_row list \<times> agg_row list)" where
  "analyze_routes kind flights_df =
     (case groupby_agg ''route'' route flights_df of
        Inl e \<Rightarrow> Inl e
      | Inr routes_delays_cancels \<Rightarrow>
          (let top_routes_by_delay =
                 head TOP_N (sort_values kind by_delay False routes_delays_cancels);
               top_routes_by_cancellations =
                 head TOP_N (sort_values kind by_cancellations False routes_delays_cancels)
           in case iloc0 top_routes_by_delay of
                Inl e \<Rightarrow> Inl e
              | Inr _ \<Rightarrow>
                  (case iloc0 top_routes_by_cancellations of
                     Inl e \<Rightarrow> Inl e
                   | Inr _ \<Rightarrow>
                       Inr (routes_delays_cancels, top_routes_by_delay,
                            top_routes_by_cancellations))))"

definition analyze_airlines ::
  "(rat list \<Rightarrow> nat list) \<Rightarrow> 'a dataframe
     \<Rightarrow> error + (agg_row list \<times> agg_row list \<times> agg_row list)" where
  "analyze_airlines kind flights_df =
     (case groupby_agg ''airline'' airline flights_df of
        Inl e \<Rightarrow> Inl e
      | Inr airlines_delays_cancels \<Rightarrow>
          (let top_airlines_by_delay =
                 head TOP_N (sort_values kind by_delay False airlines_delays_cancels);
               top_airlines_by_cancellations =
                 head TOP_N (sort_values kind by_cancellations False airlines_delays_cancels)
           in case iloc0 top_airlines_by_delay of
                Inl e \<Rightarrow> Inl e
              | Inr _ \<Rightarrow>
                  Inr (airlines_delays_cancels, top_airlines_by_delay,
                       top_airlines_by_cancellations)))"

section \<open>Wind aggregator\<close>

text \<open>
  \<open>x >= c\<close> on floating-point numbers: every comparison with NaN is false.
\<close>

definition ge_num :: "rat option \<Rightarrow> rat \<Rightarrow> bool" where
  "ge_num x c = (case x of None \<Rightarrow> False | Some v \<Rightarrow> c \<le> v)"

text \<open>\<open>lambda x: ">= 10mph" if x >= 10 else "< 10mph"\<close>\<close>

definition wind_label :: "rat option \<Rightarrow> string" where
  "wind_label x = (if ge_num x 10 then ''>= 10mph'' else ''< 10mph'')"

definition newline :: string where
  "newline = [CHR 0x0A]"

text \<open>
  \<open>print(s)\<close> writes \<open>s\<close> and a line break.  The banners of the wind aggregator are
  ASCII, which every encoding of standard output in use can write; the report is not,
  and the report generator prints it only when standard output can encode it.
\<close>

definition print :: "string \<Rightarrow> 'a world \<Rightarrow> 'a world" where
  "print s w = w\<lparr>stdout := stdout w @ [Text (s @ newline)]\<rparr>"

text \<open>
  \<open>flights_weather_df.groupby(["wind_group", "origin"]).agg(
     mean_dep_delay=("dep_delay", "mean"))\<close>
\<close>

definition wind_grouped :: "'a dataframe \<Rightarrow> error + wind_detail list" where
  "wind_grouped df =
     (if ''wind_group'' \<notin> set (columns df) then Inl (KeyError ''wind_group'')
      else if ''origin'' \<notin> set (columns df) then Inl (KeyError ''origin'')
      else if ''dep_delay'' \<notin> set (columns df) then Inl (KeyError ''dep_delay'')
      else Inr (map (\<lambda>(g, a). let grp = filter (\<lambda>r. wind_group r = Some g \<and> origin r = Some a)
                                             (rows df) in
                       \<lparr>wd_group = g, wd_origin = a,
                        wd_mean = series_mean (map dep_delay grp)\<rparr>)
                  (group_keys
                     (map (\<lambda>r. case wind_group r of None \<Rightarrow> None
                                | Some g \<Rightarrow> (case origin r of None \<Rightarrow> None
                                             | Some a \<Rightarrow> Some (g, a)))
                        (rows df)))))"

text \<open>\<open>flights_weather_df.groupby("wind_group")["dep_delay"].agg(['mean', 'count'])\<close>\<close>

definition wind_summarize :: "'a dataframe \<Rightarrow> error + wind_stat list" where
  "wind_summarize df =
     (if ''wind_group'' \<notin> set (columns df) then Inl (KeyError ''wind_group'')
      else if ''dep_delay'' \<notin> set (columns df) then Inl (KeyError ''dep_delay'')
      else Inr (map (\<lambda>g. let grp = filter (\<lambda>r. wind_group r = Some g) (rows df) in
                       \<lparr>ws_group = g,
                        ws_mean = series_mean (map dep_delay grp),
                        ws_count = series_count (map dep_delay grp)\<rparr>)
                  (group_keys (map wind_group (rows df)))))"

text \<open>
  The assignment \<open>flights_weather_df["wind_group"] = flights_weather_df["wind_gust"].apply(...)\<close>,
  as a function of the table.
\<close>

definition assign_wind_group :: "'a dataframe \<Rightarrow> error + 'a dataframe" where
  "assign_wind_group df =
     (case getitem df ''wind_gust'' wind_gust of
        Inl e \<Rightarrow> Inl e
      | Inr gusts \<Rightarrow>
          Inr (setitem df ''wind_group'' (\<lambda>v r. r\<lparr>wind_group := v\<rparr>)
                 (map (\<lambda>x. Some (wind_label x)) gusts)))"

text \<open>The seven \<open>print\<close> calls; a printed table is kept as the table.\<close>

definition print_wind_tables ::
  "wind_stat list \<Rightarrow> wind_detail list \<Rightarrow> 'a world \<Rightarrow> 'a world" where
  "print_wind_tables wind_summary wind_grouped_data w =
     (let w2 = print (newline @ replicate 50 CHR ''='') w;
          w3 = print ''WIND IMPACT ANALYSIS'' w2;
          w4 = print (replicate 50 CHR ''='') w3;
          w5 = print (newline @ ''Summary by Wind Conditions:'') w4;
          w6 = w5\<lparr>stdout := stdout w5 @ [SummaryTable wind_summary]\<rparr>;
          w7 = print (newline @ ''Detailed by Origin Airport:'') w6
      in w7\<lparr>stdout := stdout w7 @ [DetailTable wind_grouped_data]\<rparr>)"

definition analyze_wind_impact ::
  "nat \<Rightarrow> 'a world \<Rightarrow> (error + (wind_detail list \<times> wind_stat list)) \<times> 'a world" where
  "analyze_wind_impact flights_weather_df w =
     (case assign_wind_group (heap w flights_weather_df) of
        Inl e \<Rightarrow> (Inl e, w)
      | Inr df' \<Rightarrow>
          (let w1 = w\<lparr>heap := (heap w)(flights_weather_df := df')\<rparr>
           in case wind_grouped df' of
                Inl e \<Rightarrow> (Inl e, w1)
              | Inr wind_grouped_data \<Rightarrow>
                  (case wind_summarize df' of
                     Inl e \<Rightarrow> (Inl e, w1)
                   | Inr wind_summary \<Rightarrow>
                       (Inr (wind_grouped_data, wind_summary),
                        print_wind_tables wind_summary wind_grouped_data w1))))"

section \<open>Formatting numbers\<close>

definition digit :: "nat \<Rightarrow> char" where
  "digit d = ''0123456789'' ! d"

fun str_nat :: "nat \<Rightarrow> string" where
  "str_nat n = (if n < 10 then [digit n] else str_nat (n div 10) @ [digit (n mod 10)])"

declare str_nat.simps [simp del]

definition str_int :: "int \<Rightarrow> string" where
  "str_int i = (if i < 0 then ''-'' @ str_nat (nat (- i)) else str_nat (nat i))"

text \<open>
  The format \<open>:.1f\<close>: one digit after the point, ties to the even digit, \<open>nan\<close> for NaN.
\<close>

definition format_1f :: "rat option \<Rightarrow> string" where
  "format_1f x =
     (case x of
        None \<Rightarrow> ''nan''
      | Some q \<Rightarrow>
          (let m = \<bar>q\<bar> * 10;
               t = nat \<lfloor>m\<rfloor>;
               f = m - of_nat t;
               u = (if 1 / 2 < f \<or> (f = 1 / 2 \<and> odd t) then Suc t else t)
           in (if q < 0 then ''-'' else []) @ str_nat (u div 10) @ ''.'' @ [digit (u mod 10)]))"

section \<open>Plot renderers\<close>

text \<open>
  A chart is kept as the list of its bars: the tick label and the annotation written
  above the bar.  Each renderer saves its chart at a fixed path.
\<close>

definition create_route_cancellations_plot :: "agg_row list \<Rightarrow> 'a world \<Rightarrow> 'a world" where
  "create_route_cancellations_plot top_routes_by_cancellations w =
     w\<lparr>files := (files w)(''results/plots/route_cancellations.png'' \<mapsto>
          Image (map (\<lambda>r. (key r, str_int (total_cancellations r)))
                   top_routes_by_cancellations))\<rparr>"

definition create_airline_delays_plot :: "agg_row list \<Rightarrow> 'a world \<Rightarrow> 'a world" where
  "create_airline_delays_plot top_airlines_by_delay w =
     w\<lparr>files := (files w)(''results/plots/airline_delays.png'' \<mapsto>
          Image (map (\<lambda>r. (key r, format_1f (mean_dep_delay r))) top_airlines_by_delay))\<rparr>"

definition create_wind_impact_plot :: "wind_stat list \<Rightarrow> 'a world \<Rightarrow> 'a world" where
  "create_wind_impact_plot wind_summary w =
     w\<lparr>files := (files w)(''results/plots/wind_impact.png'' \<mapsto>
          Image (map (\<lambda>r. (ws_group r,
                            format_1f (ws_mean r) @ '' min'' @ newline @ ''(n=''
                              @ str_int (ws_count r) @ '')''))
                   wind_summary))\<rparr>"

section \<open>Report generator\<close>

text \<open>
  The two characters of the template outside ASCII, the bullet (U+2022) and the sign
  for greater or equal (U+2265).
\<close>

definition bullet :: string where
  "bullet = [CHR 0xE2, CHR 0x80, CHR 0xA2]"

definition ge_sign :: string where
  "ge_sign = [CHR 0xE2, CHR 0x89, CHR 0xA5]"

text \<open>\<open>sep.join(xs)\<close>\<close>

fun join :: "string \<Rightarrow> string list \<Rightarrow> string" where
  "join sep [] = []"
| "join sep [x] = x"
| "join sep (x # y # ys) = x @ sep @ join sep (y # ys)"

text \<open>
  \<open>wind_summary.loc[k, 'mean']\<close>: the mean in the row labelled \<open>k\<close>; \<open>KeyError\<close> when
  no row has this label.  The labels of a grouped table are distinct.
\<close>

definition loc_mean :: "wind_stat list \<Rightarrow> string \<Rightarrow> error + rat option" where
  "loc_mean wind_summary k =
     (case find (\<lambda>r. ws_group r = k) wind_summary of
        None \<Rightarrow> Inl (KeyError k)
      | Some r \<Rightarrow> Inr (ws_mean r))"

definition report_path :: string where
  "report_path = ''results/analysis_summary.txt''"

text \<open>The lines of the report, given the five values looked up.\<close>

definition report_lines ::
  "agg_row \<Rightarrow> agg_row \<Rightarrow> agg_row \<Rightarrow> rat option \<Rightarrow> rat option \<Rightarrow> string list" where
  "report_lines worst_route worst_cancel_route worst_airline high low =
     [replicate 60 CHR ''='',
      ''FLIGHT DELAY AND CANCELLATION ANALYSIS REPORT'',
      replicate 60 CHR ''='',
      [],
      ''TOP FINDINGS:'',
      replicate 20 CHR ''-'',
      bullet @ '' Worst route for delays: '' @ key worst_route @ '' (''
        @ format_1f (mean_dep_delay worst_route) @ '' min)'',
      bullet @ '' Route with most cancellations: '' @ key worst_cancel_route @ '' (''
        @ str_int (total_cancellations worst_cancel_route) @ '' flights)'',
      bullet @ '' Airline with highest delays: '' @ key worst_airline @ '' (''
        @ format_1f (mean_dep_delay worst_airline) @ '' min)'',
      bullet @ '' Wind impact: High winds ('' @ ge_sign @ ''10mph) cause ''
        @ format_1f high @ '' min delays'',
      replicate 16 CHR '' '' @ ''Low winds (<10mph) cause '' @ format_1f low
        @ '' min delays'']"

text \<open>The report text: the look-ups in their order, then the lines joined by line breaks.\<close>

definition build_report ::
  "agg_row list \<times> agg_row list \<times> agg_row list
     \<Rightarrow> agg_row list \<times> agg_row list \<times> agg_row list
     \<Rightarrow> wind_stat list \<Rightarrow> error + string" where
  "build_report routes_stats airlines_stats wind_summary =
     (case iloc0 (fst (snd routes_stats)) of
        Inl e \<Rightarrow> Inl e
      | Inr worst_route \<Rightarrow>
     (case iloc0 (snd (snd routes_stats)) of
        Inl e \<Rightarrow> Inl e
      | Inr worst_cancel_route \<Rightarrow>
     (case iloc0 (fst (snd airlines_stats)) of
        Inl e \<Rightarrow> Inl e
      | Inr worst_airline \<Rightarrow>
     (case loc_mean wind_summary ''>= 10mph'' of
        Inl e \<Rightarrow> Inl e
      | Inr high \<Rightarrow>
     (case loc_mean wind_summary ''< 10mph'' of
        Inl e \<Rightarrow> Inl e
      | Inr low \<Rightarrow>
          Inr (join newline
                 (report_lines worst_route worst_cancel_route worst_airline high low)))))))"

text \<open>
  The program prints to standard output as the platform has set it up and opens the
  report file without naming an encoding, so the platform decides which texts can be
  written: \<open>stdout_encodes p s\<close> holds when the encoding of standard output has every
  character of \<open>s\<close>, and \<open>file_encodes p s\<close> when the default encoding of \<open>open\<close> has.
  Writing a text that the encoding lacks a character for raises \<open>UnicodeEncodeError\<close>.
\<close>

record platform =
  stdout_encodes :: "string \<Rightarrow> bool"
  file_encodes :: "string \<Rightarrow> bool"

text \<open>
  A failed look-up leaves before anything is printed or written.  Then the report is
  printed with a line break in front; a text that standard output cannot encode is
  refused whole, with nothing written.  Then \<open>open(..., 'w')\<close> empties the report file
  and the report is written to it; when the file's encoding cannot encode the report,
  the file stays empty.  The results directory exists (the module creates it when it
  is loaded) and is taken to be writable.
\<close>

definition generate_summary_report ::
  "platform
     \<Rightarrow> agg_row list \<times> agg_row list \<times> agg_row list
     \<Rightarrow> agg_row list \<times> agg_row list \<times> agg_row list
     \<Rightarrow> wind_stat list \<Rightarrow> 'a world \<Rightarrow> (error + unit) \<times> 'a world" where
  "generate_summary_report p routes_stats airlines_stats wind_summary w =
     (case build_report routes_stats airlines_stats wind_summary of
        Inl e \<Rightarrow> (Inl e, w)
      | Inr report_text \<Rightarrow>
          if \<not> stdout_encodes p (newline @ report_text) then (Inl UnicodeEncodeError, w)
          else
            (let w1 = print (newline @ report_text) w;
                 w2 = w1\<lparr>files := (files w1)(report_path \<mapsto> TextFile [])\<rparr>
             in if \<not> file_encodes p report_text then (Inl UnicodeEncodeError, w2)
                else (Inr (),
                      w2\<lparr>files := (files w2)(report_path \<mapsto> TextFile report_text)\<rparr>)))"

section \<open>Loader and pipeline\<close>

text \<open>
  \<open>csv\<close> gives the parsed contents of the input files.  Loading creates two new table
  objects.
\<close>

definition load_data :: "'a world \<Rightarrow> (error + nat \<times> nat) \<times> 'a world" where
  "load_data w =
     (case csv w ''flights2022.csv'' of
        None \<Rightarrow> (Inl (FileNotFoundError ''flights2022.csv''), w)
      | Some flights2022 \<Rightarrow>
          (case csv w ''flights_weather2022.csv'' of
             None \<Rightarrow> (Inl (FileNotFoundError ''flights_weather2022.csv''), w)
           | Some flights_weather2022 \<Rightarrow>
               (let a = next_ref w; b = Suc (next_ref w)
                in (Inr (a, b),
                    w\<lparr>heap := (heap w)(a := flights2022, b := flights_weather2022),
                       next_ref := Suc (Suc (next_ref w))\<rparr>))))"

text \<open>
  \<open>main\<close> returns nothing; the model returns the aggregate tables it computed, so that
  they can be observed.  The sorting routine of the library and the encodings of the
  platform are the same throughout a run.
\<close>

record results =
  routes_stats :: "agg_row list \<times> agg_row list \<times> agg_row list"
  airlines_stats :: "agg_row list \<times> agg_row list \<times> agg_row list"
  wind_data :: "wind_detail list"
  wind_summary :: "wind_stat list"

definition main ::
  "(rat list \<Rightarrow> nat list) \<Rightarrow> platform \<Rightarrow> 'a world \<Rightarrow> (error + results) \<times> 'a world" where
  "main kind p w =
     (case load_data w of
        (Inl e, w1) \<Rightarrow> (Inl e, w1)
      | (Inr (flights_df, flights_weather_df), w1) \<Rightarrow>
     (case preprocess_data flights_df w1 of
        (Inl e, w2) \<Rightarrow> (Inl e, w2)
      | (Inr flights_df', w2) \<Rightarrow>
     (case analyze_routes kind (heap w2 flights_df') of
        Inl e \<Rightarrow> (Inl e, w2)
      | Inr rs \<Rightarrow>
     (case analyze_airlines kind (heap w2 flights_df') of
        Inl e \<Rightarrow> (Inl e, w2)
      | Inr as \<Rightarrow>
     (case analyze_wind_impact flights_weather_df w2 of
        (Inl e, w3) \<Rightarrow> (Inl e, w3)
      | (Inr (wd, ws), w3) \<Rightarrow>
          (let w4 = create_route_cancellations_plot (snd (snd rs)) w3;
               w5 = create_airline_delays_plot (fst (snd as)) w4;
               w6 = create_wind_impact_plot ws w5
           in case generate_summary_report p rs as ws w6 of
                (Inl e, w7) \<Rightarrow> (Inl e, w7)
              | (Inr _, w7) \<Rightarrow>
                  (Inr \<lparr>routes_stats = rs, airlines_stats = as,
                        wind_data = wd, wind_summary = ws\<rparr>, w7)))))))"

section \<open>The default sorting routine\<close>

text \<open>
  \<open>sort_values\<close> is called without \<open>kind\<close>, so the default \<open>kind='quicksort'\<close> sorts: the
  introsort of the numerical library, applied to positions (an argsort).  The library
  documents it as not stable.  It is not part of the repository; this is its scalar
  implementation: median-of-three quicksort, insertion sort on short ranges, heap sort
  when the depth bound is used up.
\<close>

text \<open>
  Partitions of at most \<open>SMALL_QUICKSORT + 1\<close> positions are finished by insertion sort.
\<close>

definition SMALL_QUICKSORT :: nat where
  "SMALL_QUICKSORT = 16"

definition intp_swap :: "nat \<Rightarrow> nat \<Rightarrow> nat list \<Rightarrow> nat list" where
  "intp_swap i j a = a[i := a ! j, j := a ! i]"

text \<open>The position of the highest set bit; twice this number bounds the partition depth.\<close>

fun get_msb :: "nat \<Rightarrow> nat" where
  "get_msb n = (if n < 2 then 0 else Suc (get_msb (n div 2)))"

declare get_msb.simps [simp del]

text \<open>
  The two scans of the partition loop: \<open>do ++pi while (v[*pi] < vp)\<close> and
  \<open>do --pj while (vp < v[*pj])\<close>, written \<open>ip\<close> and \<open>jp\<close> here.  The routine relies on
  sentinels: the upward scan stops at the pivot stored at \<open>hi\<close> at the latest, the
  downward scan at \<open>lo\<close>, whose value is not above the pivot.
\<close>

function scan_up :: "rat list \<Rightarrow> nat list \<Rightarrow> rat \<Rightarrow> nat \<Rightarrow> nat \<Rightarrow> nat" where
  "scan_up v a vp hi ip =
     (if Suc ip < hi \<and> v ! (a ! Suc ip) < vp then scan_up v a vp hi (Suc ip) else Suc ip)"
  by pat_completeness auto
termination
  by (relation "measure (\<lambda>(v, a, vp, hi, ip). hi - ip)") auto

declare scan_up.simps [simp del]

function scan_down :: "rat list \<Rightarrow> nat list \<Rightarrow> rat \<Rightarrow> nat \<Rightarrow> nat \<Rightarrow> nat" where
  "scan_down v a vp lo jp =
     (if lo < jp - 1 \<and> vp < v ! (a ! (jp - 1)) then scan_down v a vp lo (jp - 1) else jp - 1)"
  by pat_completeness auto
termination
  by (relation "measure (\<lambda>(v, a, vp, lo, jp). jp)") auto

declare scan_down.simps [simp del]

lemma scan_up_gt: "ip < scan_up v a vp hi ip"
  by (induction v a vp hi ip rule: scan_up.induct) (subst scan_up.simps, auto)

lemma scan_down_le: "scan_down v a vp lo jp \<le> jp - 1"
  by (induction v a vp lo jp rule: scan_down.induct) (subst scan_down.simps, auto)

text \<open>The partition loop: scan from both ends, exchange, until the scans meet.\<close>

function partition_loop ::
  "rat list \<Rightarrow> rat \<Rightarrow> nat \<Rightarrow> nat \<Rightarrow> nat list \<Rightarrow> nat \<Rightarrow> nat \<Rightarrow> nat list \<times> nat" where
  "partition_loop v vp lo hi a ip jp =
     (let ip' = scan_up v a vp hi ip;
          jp' = scan_down v a vp lo jp
      in if jp' \<le> ip' then (a, ip')
         else partition_loop v vp lo hi (intp_swap ip' jp' a) ip' jp')"
  by pat_completeness auto
termination
proof (relation "measure (\<lambda>(v, vp, lo, hi, a, ip, jp). jp - ip)", goal_cases)
  case 1
  then show ?case by simp
next
  case (2 v vp lo hi a ip jp x xa)
  then show ?case
    using scan_up_gt [of ip v a vp hi] scan_down_le [of v a vp lo jp] by simp
qed

declare partition_loop.simps [simp del]


lemma scan_up_le: "ip < hi \<Longrightarrow> scan_up v a vp hi ip \<le> hi"
  by (induction v a vp hi ip rule: scan_up.induct) (subst scan_up.simps, auto)

lemma partition_loop_bounds:
  "ip < jp \<Longrightarrow> jp \<le> hi \<Longrightarrow>
     ip < snd (partition_loop v vp lo hi a ip jp) \<and> snd (partition_loop v vp lo hi a ip jp) \<le> hi"
proof (induction v vp lo hi a ip jp rule: partition_loop.induct)
  case (1 v vp lo hi a ip jp)
  let ?i = "scan_up v a vp hi ip" and ?j = "scan_down v a vp lo jp"
  have i: "ip < ?i" "?i \<le> hi"
    using scan_up_gt [of ip v a vp hi] scan_up_le [of ip hi v a vp] "1.prems" by simp_all
  have j: "?j \<le> jp - 1" by (rule scan_down_le)
  show ?case
  proof (cases "?j \<le> ?i")
    case True
    then show ?thesis using i by (subst (1 2) partition_loop.simps) (simp add: Let_def)
  next
    case False
    then have "?i < snd (partition_loop v vp lo hi (intp_swap ?i ?j a) ?i ?j)
       \<and> snd (partition_loop v vp lo hi (intp_swap ?i ?j a) ?i ?j) \<le> hi"
      using "1.IH" [of ?i ?j] j "1.prems" by simp
    then show ?thesis using False i by (subst (1 2) partition_loop.simps) (simp add: Let_def)
  qed
qed

text \<open>
  One partition step of the range \<open>pl..pr\<close>: the median of the first, middle and last
  value becomes the pivot and is parked at \<open>pr - 1\<close>; after the loop it is put at its
  final position, which is returned.
\<close>

definition median3 :: "rat list \<Rightarrow> nat list \<Rightarrow> nat \<Rightarrow> nat \<Rightarrow> nat \<Rightarrow> nat list" where
  "median3 v a pl pm pr =
     (let a1 = (if v ! (a ! pm) < v ! (a ! pl) then intp_swap pm pl a else a);
          a2 = (if v ! (a1 ! pr) < v ! (a1 ! pm) then intp_swap pr pm a1 else a1)
      in if v ! (a2 ! pm) < v ! (a2 ! pl) then intp_swap pm pl a2 else a2)"

definition partition_step :: "rat list \<Rightarrow> nat list \<Rightarrow> nat \<Rightarrow> nat \<Rightarrow> nat list \<times> nat" where
  "partition_step v a pl pr =
     (let pm = pl + (pr - pl) div 2;
          a3 = median3 v a pl pm pr;
          vp = v ! (a3 ! pm);
          a4 = intp_swap pm (pr - 1) a3
      in case partition_loop v vp pl (pr - 1) a4 pl (pr - 1) of
           (a5, ip) \<Rightarrow> (intp_swap ip (pr - 1) a5, ip))"

lemma partition_step_bounds:
  assumes "Suc pl < pr" and "partition_step v a pl pr = (a', ip)"
  shows "pl < ip \<and> ip < pr"
proof -
  define pm where "pm = pl + (pr - pl) div 2"
  define a3 where "a3 = median3 v a pl pm pr"
  define r where "r = partition_loop v (v ! (a3 ! pm)) pl (pr - 1) (intp_swap pm (pr - 1) a3) pl (pr - 1)"
  have "ip = snd r"
    using assms(2) unfolding partition_step_def Let_def r_def a3_def pm_def
    by (simp split: prod.splits)
  moreover have "pl < snd r \<and> snd r \<le> pr - 1"
    unfolding r_def using assms(1) by (intro partition_loop_bounds) simp_all
  ultimately show ?thesis using assms(1) by linarith
qed

text \<open>Insertion sort of the range \<open>pl..pr\<close>.\<close>

function shift_up :: "rat list \<Rightarrow> rat \<Rightarrow> nat \<Rightarrow> nat list \<Rightarrow> nat \<Rightarrow> nat list \<times> nat" where
  "shift_up v vp pl a jp =
     (if pl < jp \<and> vp < v ! (a ! (jp - 1))
      then shift_up v vp pl (a[jp := a ! (jp - 1)]) (jp - 1)
      else (a, jp))"
  by pat_completeness auto
termination
  by (relation "measure (\<lambda>(v, vp, pl, a, jp). jp)") auto

declare shift_up.simps [simp del]

definition insert_at :: "rat list \<Rightarrow> nat \<Rightarrow> nat \<Rightarrow> nat list \<Rightarrow> nat list" where
  "insert_at v pl ip a =
     (let vi = a ! ip in
      case shift_up v (v ! vi) pl a ip of (a', jp) \<Rightarrow> a'[jp := vi])"

definition insertion_sort :: "rat list \<Rightarrow> nat \<Rightarrow> nat \<Rightarrow> nat list \<Rightarrow> nat list" where
  "insertion_sort v pl pr a = fold (insert_at v pl) [Suc pl..<Suc pr] a"

text \<open>
  Heap sort of the \<open>n\<close> positions from \<open>base\<close>, the fallback when the depth bound is
  used up.  The heap is indexed from 1.
\<close>

function sift :: "rat list \<Rightarrow> nat \<Rightarrow> nat \<Rightarrow> nat \<Rightarrow> nat list \<Rightarrow> nat \<Rightarrow> nat \<Rightarrow> nat list" where
  "sift v base n tmp a i j =
     (if 0 < j \<and> j \<le> n then
        (let j' = (if j < n \<and> v ! (a ! (base + j - 1)) < v ! (a ! (base + j)) then j + 1 else j)
         in if v ! tmp < v ! (a ! (base + j' - 1))
            then sift v base n tmp (a[base + i - 1 := a ! (base + j' - 1)]) j' (j' + j')
            else a[base + i - 1 := tmp])
      else a[base + i - 1 := tmp])"
  by pat_completeness auto
termination
  by (relation "measure (\<lambda>(v, base, n, tmp, a, i, j). Suc n - j)") auto

declare sift.simps [simp del]

definition aheapsort :: "rat list \<Rightarrow> nat \<Rightarrow> nat \<Rightarrow> nat list \<Rightarrow> nat list" where
  "aheapsort v base n a =
     (let heap = fold (\<lambda>l b. sift v base n (b ! (base + l - 1)) b l (2 * l))
                   (rev [1..<Suc (n div 2)]) a
      in fold (\<lambda>m b. let tmp = b ! (base + m - 1);
                          b' = b[base + m - 1 := b ! base]
                      in sift v base (m - 1) tmp b' 1 2)
           (rev [2..<Suc n]) heap)"

text \<open>
  The main loop on one range.  After a partition step the routine goes on with the
  smaller part and stacks the larger one, both with the depth lowered by one; the depth
  is tested only when a range is taken from the stack (\<open>popped\<close>).  The parts do not
  overlap, so the stack is rendered by recursion.
\<close>

function aquicksort_from ::
  "rat list \<Rightarrow> bool \<Rightarrow> int \<Rightarrow> nat \<Rightarrow> nat \<Rightarrow> nat list \<Rightarrow> nat list" where
  "aquicksort_from v popped cdepth pl pr a =
     (if popped \<and> cdepth < 0 then aheapsort v pl (Suc pr - pl) a
      else if SMALL_QUICKSORT < pr - pl then
        (case partition_step v a pl pr of
           (a', ip) \<Rightarrow>
             if ip - pl < pr - ip
             then aquicksort_from v True (cdepth - 1) (Suc ip) pr
                    (aquicksort_from v False (cdepth - 1) pl (ip - 1) a')
             else aquicksort_from v True (cdepth - 1) pl (ip - 1)
                    (aquicksort_from v False (cdepth - 1) (Suc ip) pr a'))
      else insertion_sort v pl pr a)"
  by pat_completeness auto
termination
proof -
  have b: "pl < y \<and> y < pr"
    if "SMALL_QUICKSORT < pr - pl" and "(x, y) = partition_step v a pl pr"
    for v a pl pr x y
    using that partition_step_bounds [of pl pr v a x y] by (simp add: SMALL_QUICKSORT_def)
  show ?thesis
    by (relation "measure (\<lambda>(v, popped, cdepth, pl, pr, a). pr - pl)")
      (auto dest!: b)
qed

declare aquicksort_from.simps [simp del]

text \<open>\<open>kind='quicksort'\<close> on the values \<open>v\<close>, starting from the positions in order.\<close>

definition quicksort_argsort :: "rat list \<Rightarrow> nat list" where
  "quicksort_argsort v =
     aquicksort_from v True (2 * int (get_msb (length v))) 0 (length v - 1) [0..<length v]"

section \<open>Ranking as the specification words it\<close>

text \<open>
  \<open>ge_metric a b\<close>: in a descending order with the missing values last, \<open>a\<close> may stand
  before \<open>b\<close>.
\<close>

definition ge_metric :: "rat option \<Rightarrow> rat option \<Rightarrow> bool" where
  "ge_metric a b =
     (case b of None \<Rightarrow> True
      | Some y \<Rightarrow> (case a of None \<Rightarrow> False | Some x \<Rightarrow> y \<le> x))"

definition descending :: "rat option list \<Rightarrow> bool" where
  "descending ms = sorted_wrt ge_metric ms"

text \<open>
  The stable descending sort: each row, from the last to the first, is put in front of
  the first row that it may stand before, so rows with equal metric keep their order.
\<close>

fun insert_ranked :: "('r \<Rightarrow> rat option) \<Rightarrow> 'r \<Rightarrow> 'r list \<Rightarrow> 'r list" where
  "insert_ranked by x [] = [x]"
| "insert_ranked by x (y # ys) =
     (if ge_metric (by x) (by y) then x # y # ys else y # insert_ranked by x ys)"

definition stable_ranking :: "('r \<Rightarrow> rat option) \<Rightarrow> 'r list \<Rightarrow> 'r list" where
  "stable_ranking by xs = foldr (insert_ranked by) xs []"

definition stable_top_n :: "('r \<Rightarrow> rat option) \<Rightarrow> 'r list \<Rightarrow> 'r list" where
  "stable_top_n by agg = take TOP_N (stable_ranking by agg)"

text \<open>
  A ranked view without the promise on ties: the first \<open>TOP_N\<close> rows of some
  rearrangement of the aggregate table that is in descending order of the metric.
\<close>

definition ranked_view :: "('r \<Rightarrow> rat option) \<Rightarrow> 'r list \<Rightarrow> 'r list \<Rightarrow> bool" where
  "ranked_view by agg view \<longleftrightarrow>
     length view \<le> 9
     \<and> descending (map by view)
     \<and> (\<exists>full. mset full = mset agg \<and> descending (map by full) \<and> view = take TOP_N full)"

text \<open>
  What every sorting routine of the library promises for the values \<open>xs\<close> it is given:
  the result lists each position once, and the values read in this order ascend.
\<close>

definition argsort_ok :: "(rat list \<Rightarrow> nat list) \<Rightarrow> rat list \<Rightarrow> bool" where
  "argsort_ok kind xs \<longleftrightarrow>
     mset (kind xs) = mset [0..<length xs] \<and> sorted (map (\<lambda>i. xs ! i) (kind xs))"

section \<open>Example tables\<close>

text \<open>
  The tables of the worked examples: two flights on one route, the second cancelled, a
  flight on another route with no delay recorded, and four weather-joined
  flights, the last without a gust reading and without a delay.
\<close>

definition flight_row ::
  "string \<Rightarrow> string \<Rightarrow> string \<Rightarrow> rat option \<Rightarrow> rat option \<Rightarrow> rat option \<Rightarrow> flight" where
  "flight_row a b c dt dl g =
     \<lparr>origin = Some a, dest = Some b, airline = Some c, dep_time = dt, dep_delay = dl,
      wind_gust = g, route = None, wind_group = None\<rparr>"

definition example_flights :: "unit dataframe" where
  "example_flights =
     \<lparr>columns = [''origin'', ''dest'', ''airline'', ''dep_time'', ''dep_delay''],
      rows = [flight_row ''JFK'' ''LAX'' ''AA'' (Some 1200) (Some 10) None,
              flight_row ''JFK'' ''LAX'' ''AA'' None (Some 30) None,
              flight_row ''JFK'' ''SFO'' ''UA'' (Some 1300) None None]\<rparr>"

definition example_weather :: "unit dataframe" where
  "example_weather =
     \<lparr>columns = [''origin'', ''dest'', ''airline'', ''dep_time'', ''dep_delay'', ''wind_gust''],
      rows = [flight_row ''JFK'' ''LAX'' ''AA'' (Some 1200) (Some 5) (Some 9),
              flight_row ''JFK'' ''LAX'' ''AA'' (Some 1300) (Some 15) (Some 10),
              flight_row ''JFK'' ''LAX'' ''AA'' (Some 1400) (Some 25) (Some 20),
              flight_row ''JFK'' ''LAX'' ''AA'' (Some 1500) None None]\<rparr>"

definition empty_frame :: "unit dataframe" where
  "empty_frame = \<lparr>columns = [], rows = []\<rparr>"

text \<open>A store that holds the two tables as objects 0 and 1.\<close>

definition example_world :: "unit world" where
  "example_world =
     \<lparr>csv = (\<lambda>_. None),
      heap = (\<lambda>_. empty_frame)(0 := example_flights, 1 := example_weather),
      next_ref = 2, stdout = [], files = (\<lambda>_. None)\<rparr>"

text \<open>
  The sorting routine \<open>kind='stable'\<close>: the positions in ascending order of the values,
  equal values in their original order.
\<close>

definition stable_argsort :: "rat list \<Rightarrow> nat list" where
  "stable_argsort xs = map snd (sort_key fst (zip xs [0..<length xs]))"

text \<open>The flight table of the example after the preprocessor has run.\<close>

definition example_routes :: "unit dataframe" where
  "example_routes = heap (snd (preprocess_data 0 example_world)) 0"

text \<open>The aggregate tables of the example, by route and by airline.\<close>

definition example_route_stats :: "agg_row list" where
  "example_route_stats =
     [\<lparr>key = ''JFK-LAX'', mean_dep_delay = Some 20, total_cancellations = 1\<rparr>,
      \<lparr>key = ''JFK-SFO'', mean_dep_delay = None, total_cancellations = 0\<rparr>]"

definition example_airline_stats :: "agg_row list" where
  "example_airline_stats =
     [\<lparr>key = ''AA'', mean_dep_delay = Some 20, total_cancellations = 1\<rparr>,
      \<lparr>key = ''UA'', mean_dep_delay = None, total_cancellations = 0\<rparr>]"

text \<open>The wind summary of the example, and the report written from the three tables.\<close>

definition example_wind_summary :: "wind_stat list" where
  "example_wind_summary =
     [\<lparr>ws_group = ''< 10mph'', ws_mean = Some 5, ws_count = 1\<rparr>,
      \<lparr>ws_group = ''>= 10mph'', ws_mean = Some 20, ws_count = 2\<rparr>]"

definition example_report :: string where
  "example_report =
     join newline
       [replicate 60 CHR ''='',
        ''FLIGHT DELAY AND CANCELLATION ANALYSIS REPORT'',
        replicate 60 CHR ''='',
        [],
        ''TOP FINDINGS:'',
        replicate 20 CHR ''-'',
        bullet @ '' Worst route for delays: JFK-LAX (20.0 min)'',
        bullet @ '' Route with most cancellations: JFK-LAX (1 flights)'',
        bullet @ '' Airline with highest delays: AA (20.0 min)'',
        bullet @ '' Wind impact: High winds ('' @ ge_sign @ ''10mph) cause 20.0 min delays'',
        replicate 16 CHR '' '' @ ''Low winds (<10mph) cause 5.0 min delays'']"


definition utf8_platform :: platform where
  "utf8_platform = \<lparr>stdout_encodes = (\<lambda>s. True), file_encodes = (\<lambda>s. True)\<rparr>"



text \<open>A world before any run: the two input files, no table object, nothing written.\<close>

definition example_disk :: "unit world" where
  "example_disk =
     \<lparr>csv = (\<lambda>_. None)(''flights2022.csv'' \<mapsto> example_flights,
                         ''flights_weather2022.csv'' \<mapsto> example_weather),
      heap = (\<lambda>_. empty_frame), next_ref = 0, stdout = [], files = (\<lambda>_. None)\<rparr>"

text \<open>
  Eighteen routes with one flight each, all with the same delay and none cancelled: every
  route has the same mean delay and the same number of cancellations.
\<close>

definition tied_flights :: "unit dataframe" where
  "tied_flights =
     \<lparr>columns = [''origin'', ''dest'', ''airline'', ''dep_time'', ''dep_delay''],
      rows = map (\<lambda>d. flight_row ''JFK'' [d] ''AA'' (Some 900) (Some 5) None)
               ''ABCDEFGHIJKLMNOPQR''\<rparr>"

definition tied_routes :: "unit dataframe" where
  "tied_routes =
     heap (snd (preprocess_data 0 (example_world\<lparr>heap := (heap example_world)(0 := tied_flights)\<rparr>))) 0"

section \<open>Column assignment\<close>

lemma route_column_rows:
  "map2 (\<lambda>v. route_update (\<lambda>_. v))
     (map2 str_add (map ((\<lambda>x. str_add x (Some ''-'')) \<circ> origin) xs) (map dest xs)) xs
   = map (\<lambda>r. r\<lparr>route := str_add (str_add (origin r) (Some ''-'')) (dest r)\<rparr>) xs"
  by (induction xs) simp_all

lemma preprocess_data_rows:
  assumes "''origin'' \<in> set (columns (heap w r))" and "''dest'' \<in> set (columns (heap w r))"
  shows "preprocess_data r w =
    (Inr r, w\<lparr>heap := (heap w)(r := (heap w r)\<lparr>
       columns := (if ''route'' \<in> set (columns (heap w r)) then columns (heap w r)
                   else columns (heap w r) @ [''route'']),
       rows := map (\<lambda>x. x\<lparr>route := str_add (str_add (origin x) (Some ''-'')) (dest x)\<rparr>)
                 (rows (heap w r))\<rparr>)\<rparr>)"
  using assms
  by (simp add: preprocess_data_def assign_route_def getitem_def setitem_def Let_def
      route_column_rows)

lemma wind_column_rows:
  "map2 (\<lambda>v. wind_group_update (\<lambda>_. v)) (map ((\<lambda>x. Some (wind_label x)) \<circ> wind_gust) xs) xs
   = map (\<lambda>r. r\<lparr>wind_group := Some (wind_label (wind_gust r))\<rparr>) xs"
  by (induction xs) simp_all

lemma analyze_wind_impact_heap:
  assumes "''wind_gust'' \<in> set (columns (heap w r))"
  shows "heap (snd (analyze_wind_impact r w)) =
    (heap w)(r := (heap w r)\<lparr>
       columns := (if ''wind_group'' \<in> set (columns (heap w r)) then columns (heap w r)
                   else columns (heap w r) @ [''wind_group'']),
       rows := map (\<lambda>x. x\<lparr>wind_group := Some (wind_label (wind_gust x))\<rparr>)
                 (rows (heap w r))\<rparr>)"
  using assms
  by (simp add: analyze_wind_impact_def assign_wind_group_def getitem_def setitem_def Let_def
      wind_column_rows print_wind_tables_def print_def split: sum.splits)

lemma analyze_wind_impact_no_gust:
  assumes "''wind_gust'' \<notin> set (columns (heap w r))"
  shows "analyze_wind_impact r w = (Inl (KeyError ''wind_gust''), w)"
  using assms by (simp add: analyze_wind_impact_def assign_wind_group_def getitem_def)

section \<open>Wind classification\<close>

text \<open>
  C3.  In a weather-joined table with a gust column, every row whose gust is present
  gets exactly one of the two labels: \<open>>= 10mph\<close> when the gust is at least 10 and
  \<open>< 10mph\<close> otherwise.  The two labels differ, and a gust of exactly 10 is labelled
  \<open>>= 10mph\<close>.
\<close>

theorem wind_present_partition:
  assumes "''wind_gust'' \<in> set (columns (heap w r))"
    and "i < length (rows (heap w r))"
    and "wind_gust (rows (heap w r) ! i) = Some g"
  shows "wind_group (rows (heap (snd (analyze_wind_impact r w)) r) ! i)
           = Some (if 10 \<le> g then ''>= 10mph'' else ''< 10mph'')
         \<and> ''>= 10mph'' \<noteq> ''< 10mph''
         \<and> wind_label (Some 10) = ''>= 10mph''"
  using assms
  by (simp add: analyze_wind_impact_heap wind_label_def ge_num_def)

theorem wind_present_partition_witness:
  "''wind_gust'' \<in> set (columns (heap example_world 1))
   \<and> 1 < length (rows (heap example_world 1))
   \<and> wind_gust (rows (heap example_world 1) ! 1) = Some 10
   \<and> wind_group (rows (heap (snd (analyze_wind_impact 1 example_world)) 1) ! 1)
        = Some ''>= 10mph''"
  using wind_present_partition [of example_world 1 1 10]
  by (simp add: example_world_def example_weather_def flight_row_def)

text \<open>
  C9.  A row whose gust is missing is labelled \<open>< 10mph\<close>, because the comparison of NaN
  with 10 is false; so every row of the table, with or without a gust, carries one of
  the two labels.
\<close>

theorem wind_absent_label:
  assumes "''wind_gust'' \<in> set (columns (heap w r))"
    and "i < length (rows (heap w r))"
  shows "(wind_gust (rows (heap w r) ! i) = None \<longrightarrow>
            wind_group (rows (heap (snd (analyze_wind_impact r w)) r) ! i) = Some ''< 10mph'')
         \<and> wind_group (rows (heap (snd (analyze_wind_impact r w)) r) ! i)
              \<in> {Some ''>= 10mph'', Some ''< 10mph''}"
  using assms
  by (simp add: analyze_wind_impact_heap wind_label_def ge_num_def)

theorem wind_absent_label_witness:
  "''wind_gust'' \<in> set (columns (heap example_world 1))
   \<and> 3 < length (rows (heap example_world 1))
   \<and> wind_gust (rows (heap example_world 1) ! 3) = None
   \<and> wind_group (rows (heap (snd (analyze_wind_impact 1 example_world)) 1) ! 3)
        = Some ''< 10mph''"
  using wind_absent_label [of example_world 1 3]
  by (simp add: example_world_def example_weather_def flight_row_def)

section \<open>Preprocessor\<close>



section \<open>In-place updates\<close>

lemma analyze_wind_impact_next_ref:
  "next_ref (snd (analyze_wind_impact r w)) = next_ref w"
  by (simp add: analyze_wind_impact_def Let_def print_wind_tables_def print_def
      split: sum.splits)

lemma analyze_wind_impact_Inr_gust:
  "fst (analyze_wind_impact r w) = Inr res \<Longrightarrow> ''wind_gust'' \<in> set (columns (heap w r))"
  by (rule ccontr) (simp add: analyze_wind_impact_no_gust)

lemma preprocess_data_Inr_cols:
  "fst (preprocess_data r w) = Inr r' \<Longrightarrow>
     ''origin'' \<in> set (columns (heap w r)) \<and> ''dest'' \<in> set (columns (heap w r))"
  by (auto simp: preprocess_data_def assign_route_def getitem_def Let_def split: if_splits)

text \<open>
  C10.  Both functions that assign a column work on the table object they are given.
  When \<open>preprocess_data\<close> returns, its result is the very object it received, this
  object now has the column \<open>route\<close> with the computed values, no object was created,
  and no other object changed.  When \<open>analyze_wind_impact\<close> returns, the object of the
  caller has the column \<open>wind_group\<close> with the labels, and nothing else in the store
  changed.
\<close>

theorem tables_mutated_in_place:
  "(preprocess_data r w = (Inr r', w') \<longrightarrow>
      r' = r
      \<and> ''route'' \<in> set (columns (heap w' r))
      \<and> rows (heap w' r)
          = map (\<lambda>x. x\<lparr>route := str_add (str_add (origin x) (Some ''-'')) (dest x)\<rparr>)
              (rows (heap w r))
      \<and> next_ref w' = next_ref w
      \<and> (\<forall>q. q \<noteq> r \<longrightarrow> heap w' q = heap w q))
   \<and> (analyze_wind_impact r w = (Inr res, w'') \<longrightarrow>
      ''wind_group'' \<in> set (columns (heap w'' r))
      \<and> rows (heap w'' r)
          = map (\<lambda>x. x\<lparr>wind_group := Some (wind_label (wind_gust x))\<rparr>) (rows (heap w r))
      \<and> next_ref w'' = next_ref w
      \<and> (\<forall>q. q \<noteq> r \<longrightarrow> heap w'' q = heap w q))"
proof (intro conjI impI)
  assume a: "preprocess_data r w = (Inr r', w')"
  then have c: "''origin'' \<in> set (columns (heap w r))" "''dest'' \<in> set (columns (heap w r))"
    using preprocess_data_Inr_cols [of r w r'] by simp_all
  from a preprocess_data_rows [OF c] show "r' = r" by simp
  from a preprocess_data_rows [OF c] show "''route'' \<in> set (columns (heap w' r))" by auto
  from a preprocess_data_rows [OF c] show "rows (heap w' r)
          = map (\<lambda>x. x\<lparr>route := str_add (str_add (origin x) (Some ''-'')) (dest x)\<rparr>)
              (rows (heap w r))" by auto
  from a preprocess_data_rows [OF c] show "next_ref w' = next_ref w" by auto
  from a preprocess_data_rows [OF c] show "\<forall>q. q \<noteq> r \<longrightarrow> heap w' q = heap w q" by auto
next
  assume a: "analyze_wind_impact r w = (Inr res, w'')"
  then have c: "''wind_gust'' \<in> set (columns (heap w r))"
    using analyze_wind_impact_Inr_gust [of r w res] by simp
  from a have s: "w'' = snd (analyze_wind_impact r w)" by simp
  show "''wind_group'' \<in> set (columns (heap w'' r))"
    unfolding s analyze_wind_impact_heap [OF c] by simp
  show "rows (heap w'' r)
          = map (\<lambda>x. x\<lparr>wind_group := Some (wind_label (wind_gust x))\<rparr>) (rows (heap w r))"
    unfolding s analyze_wind_impact_heap [OF c] by simp
  show "next_ref w'' = next_ref w"
    unfolding s by (rule analyze_wind_impact_next_ref)
  show "\<forall>q. q \<noteq> r \<longrightarrow> heap w'' q = heap w q"
    unfolding s analyze_wind_impact_heap [OF c] by simp
qed

theorem tables_mutated_in_place_witness:
  "fst (preprocess_data 0 example_world) = Inr 0
   \<and> ''route'' \<notin> set (columns (heap example_world 0))
   \<and> ''route'' \<in> set (columns (heap (snd (preprocess_data 0 example_world)) 0))
   \<and> \<not> isl (fst (analyze_wind_impact 1 example_world))
   \<and> ''wind_group'' \<notin> set (columns (heap example_world 1))
   \<and> ''wind_group'' \<in> set (columns (heap (snd (analyze_wind_impact 1 example_world)) 1))"
proof -
  have p: "fst (preprocess_data 0 example_world) = Inr 0"
    by code_simp
  have q: "\<not> isl (fst (analyze_wind_impact 1 example_world))"
    by code_simp
  then obtain res where
    a: "analyze_wind_impact 1 example_world = (Inr res, snd (analyze_wind_impact 1 example_world))"
    by (cases "fst (analyze_wind_impact 1 example_world)") (auto simp: prod_eq_iff)
  from p have b: "preprocess_data 0 example_world = (Inr 0, snd (preprocess_data 0 example_world))"
    by (simp add: prod_eq_iff)
  have n: "''route'' \<notin> set (columns (heap example_world 0))"
    "''wind_group'' \<notin> set (columns (heap example_world 1))"
    by (simp_all add: example_world_def example_flights_def example_weather_def)
  from tables_mutated_in_place [of 0 example_world 0 "snd (preprocess_data 0 example_world)"] b
  have "''route'' \<in> set (columns (heap (snd (preprocess_data 0 example_world)) 0))"
    by simp
  moreover
  from tables_mutated_in_place [of 1 example_world _ _ res "snd (analyze_wind_impact 1 example_world)"] a
  have "''wind_group'' \<in> set (columns (heap (snd (analyze_wind_impact 1 example_world)) 1))"
    by simp
  ultimately show ?thesis using p q n by simp
qed

section \<open>Grouped aggregates\<close>

lemma nan_acc_eq: "nan_acc xs = (sum_list (dropna xs), length (dropna xs))"
  by (induction xs) (simp_all add: dropna_def split: option.splits)

lemma series_mean_eq:
  "series_mean xs =
     (if dropna xs = [] then None
      else Some (sum_list (dropna xs) / of_nat (length (dropna xs))))"
  by (simp add: series_mean_def nan_acc_eq)

lemma groupby_agg_row:
  assumes "groupby_agg by keyf df = Inr agg" and "g \<in> set agg"
  shows "mean_dep_delay g
           = series_mean (map dep_delay (filter (\<lambda>r. keyf r = Some (key g)) (rows df)))"
    and "total_cancellations g
           = isna_sum (map dep_time (filter (\<lambda>r. keyf r = Some (key g)) (rows df)))"
  using assms by (auto simp: groupby_agg_def Let_def split: if_splits)

lemma analyze_routes_agg:
  "analyze_routes kind df = Inr (agg, td, tc) \<Longrightarrow> groupby_agg ''route'' route df = Inr agg"
  by (auto simp: analyze_routes_def Let_def split: sum.splits)

lemma analyze_airlines_agg:
  "analyze_airlines kind df = Inr (agg, td, tc) \<Longrightarrow> groupby_agg ''airline'' airline df = Inr agg"
  by (auto simp: analyze_airlines_def Let_def split: sum.splits)

lemma isna_sum_group:
  "isna_sum (map dep_time (filter P xs))
     = int (length (filter (\<lambda>r. P r \<and> dep_time r = None) xs))"
  by (simp add: isna_sum_def filter_map comp_def conj_commute)

lemma groupby_agg_keys:
  assumes "groupby_agg by keyf df = Inr agg"
  shows "map key agg = group_keys (map keyf (rows df))"
  using assms by (auto simp: groupby_agg_def Let_def comp_def split: if_splits)

lemma distinct_group_keys: "distinct (group_keys ks)"
  by (simp add: group_keys_def)

text \<open>
  C2.  In the aggregate table of the route aggregator, and of the airline aggregator, the
  mean delay of a group is the sum of the delays that are present in the rows of the
  group divided by their number; rows without a delay count neither in the sum nor in
  the number; a group with no delay at all has the mean NaN (\<open>None\<close>), not a number.
\<close>

theorem mean_dep_delay_of_group:
  assumes "g \<in> set agg"
  shows "(analyze_routes kind df = Inr (agg, td, tc) \<longrightarrow>
            (let present = dropna (map dep_delay
                             (filter (\<lambda>r. route r = Some (key g)) (rows df)))
             in mean_dep_delay g =
                  (if present = [] then None
                   else Some (sum_list present / of_nat (length present)))))
       \<and> (analyze_airlines kind df = Inr (agg, td, tc) \<longrightarrow>
            (let present = dropna (map dep_delay
                             (filter (\<lambda>r. airline r = Some (key g)) (rows df)))
             in mean_dep_delay g =
                  (if present = [] then None
                   else Some (sum_list present / of_nat (length present)))))"
proof (intro conjI impI)
  assume "analyze_routes kind df = Inr (agg, td, tc)"
  then have "groupby_agg ''route'' route df = Inr agg"
    by (rule analyze_routes_agg)
  from groupby_agg_row(1) [OF this assms]
  show "let present = dropna (map dep_delay
                             (filter (\<lambda>r. route r = Some (key g)) (rows df)))
        in mean_dep_delay g =
                  (if present = [] then None
                   else Some (sum_list present / of_nat (length present)))"
    by (simp add: series_mean_eq Let_def)
next
  assume "analyze_airlines kind df = Inr (agg, td, tc)"
  then have "groupby_agg ''airline'' airline df = Inr agg"
    by (rule analyze_airlines_agg)
  from groupby_agg_row(1) [OF this assms]
  show "let present = dropna (map dep_delay
                             (filter (\<lambda>r. airline r = Some (key g)) (rows df)))
        in mean_dep_delay g =
                  (if present = [] then None
                   else Some (sum_list present / of_nat (length present)))"
    by (simp add: series_mean_eq Let_def)
qed

theorem mean_dep_delay_of_group_witness:
  "analyze_routes stable_argsort example_routes
       = Inr (example_route_stats, example_route_stats, example_route_stats)
   \<and> example_route_stats ! 0 \<in> set example_route_stats
   \<and> dropna (map dep_delay (filter (\<lambda>r. route r = Some ''JFK-LAX'') (rows example_routes)))
       = [10, 30]
   \<and> mean_dep_delay (example_route_stats ! 0) = Some ((10 + 30) / 2)
   \<and> example_route_stats ! 1 \<in> set example_route_stats
   \<and> dropna (map dep_delay (filter (\<lambda>r. route r = Some ''JFK-SFO'') (rows example_routes)))
       = []
   \<and> mean_dep_delay (example_route_stats ! 1) = None
   \<and> analyze_airlines stable_argsort example_routes
       = Inr (example_airline_stats, example_airline_stats, example_airline_stats)
   \<and> example_airline_stats ! 1 \<in> set example_airline_stats
   \<and> dropna (map dep_delay (filter (\<lambda>r. airline r = Some ''UA'') (rows example_routes)))
       = []
   \<and> mean_dep_delay (example_airline_stats ! 1) = None"
proof -
  have r: "analyze_routes stable_argsort example_routes
       = Inr (example_route_stats, example_route_stats, example_route_stats)"
    by code_simp
  have a: "analyze_airlines stable_argsort example_routes
       = Inr (example_airline_stats, example_airline_stats, example_airline_stats)"
    by code_simp
  have m0: "example_route_stats ! 0 \<in> set example_route_stats"
    and m1: "example_route_stats ! 1 \<in> set example_route_stats"
    and m2: "example_airline_stats ! 1 \<in> set example_airline_stats"
    by (simp_all add: example_route_stats_def example_airline_stats_def)
  have k: "key (example_route_stats ! 0) = ''JFK-LAX''"
    "key (example_route_stats ! 1) = ''JFK-SFO''"
    "key (example_airline_stats ! 1) = ''UA''"
    by (simp_all add: example_route_stats_def example_airline_stats_def)
  have d0: "dropna (map dep_delay (filter (\<lambda>r. route r = Some ''JFK-LAX'')
              (rows example_routes))) = [10, 30]"
    by code_simp
  have d1: "dropna (map dep_delay (filter (\<lambda>r. route r = Some ''JFK-SFO'')
              (rows example_routes))) = []"
    by code_simp
  have d2: "dropna (map dep_delay (filter (\<lambda>r. airline r = Some ''UA'')
              (rows example_routes))) = []"
    by code_simp
  from mean_dep_delay_of_group [OF m0, of stable_argsort example_routes] r k d0
  have "mean_dep_delay (example_route_stats ! 0) = Some ((10 + 30) / 2)"
    by (simp add: Let_def)
  moreover from mean_dep_delay_of_group [OF m1, of stable_argsort example_routes] r k d1
  have "mean_dep_delay (example_route_stats ! 1) = None"
    by (simp add: Let_def)
  moreover from mean_dep_delay_of_group [OF m2, of stable_argsort example_routes] a k d2
  have "mean_dep_delay (example_airline_stats ! 1) = None"
    by (simp add: Let_def)
  ultimately show ?thesis
    using r a m0 m1 m2 d0 d1 d2 by simp
qed

text \<open>
  C5.  In the aggregate table of the route aggregator, and of the airline aggregator, the
  cancellations of a group are the number of rows of the group whose departure time is
  missing, a non-negative integer; each key has one row in the table.
\<close>

theorem total_cancellations_of_group:
  assumes "g \<in> set agg"
  shows "(analyze_routes kind df = Inr (agg, td, tc) \<longrightarrow>
            total_cancellations g
              = int (length (filter (\<lambda>r. route r = Some (key g) \<and> dep_time r = None)
                               (rows df)))
            \<and> 0 \<le> total_cancellations g
            \<and> distinct (map key agg))
       \<and> (analyze_airlines kind df = Inr (agg, td, tc) \<longrightarrow>
            total_cancellations g
              = int (length (filter (\<lambda>r. airline r = Some (key g) \<and> dep_time r = None)
                               (rows df)))
            \<and> 0 \<le> total_cancellations g
            \<and> distinct (map key agg))"
proof (intro conjI impI)
  assume "analyze_routes kind df = Inr (agg, td, tc)"
  then have h: "groupby_agg ''route'' route df = Inr agg"
    by (rule analyze_routes_agg)
  from groupby_agg_row(2) [OF h assms]
  show e: "total_cancellations g
              = int (length (filter (\<lambda>r. route r = Some (key g) \<and> dep_time r = None)
                               (rows df)))"
    by (simp add: isna_sum_group)
  show "0 \<le> total_cancellations g" unfolding e by simp
  show "distinct (map key agg)"
    by (simp add: groupby_agg_keys [OF h] distinct_group_keys)
next
  assume "analyze_airlines kind df = Inr (agg, td, tc)"
  then have h: "groupby_agg ''airline'' airline df = Inr agg"
    by (rule analyze_airlines_agg)
  from groupby_agg_row(2) [OF h assms]
  show e: "total_cancellations g
              = int (length (filter (\<lambda>r. airline r = Some (key g) \<and> dep_time r = None)
                               (rows df)))"
    by (simp add: isna_sum_group)
  show "0 \<le> total_cancellations g" unfolding e by simp
  show "distinct (map key agg)"
    by (simp add: groupby_agg_keys [OF h] distinct_group_keys)
qed

theorem total_cancellations_of_group_witness:
  "analyze_routes stable_argsort example_routes
       = Inr (example_route_stats, example_route_stats, example_route_stats)
   \<and> example_route_stats ! 0 \<in> set example_route_stats
   \<and> length (filter (\<lambda>r. route r = Some ''JFK-LAX'' \<and> dep_time r = None)
               (rows example_routes)) = 1
   \<and> total_cancellations (example_route_stats ! 0) = 1
   \<and> analyze_airlines stable_argsort example_routes
       = Inr (example_airline_stats, example_airline_stats, example_airline_stats)
   \<and> example_airline_stats ! 0 \<in> set example_airline_stats
   \<and> length (filter (\<lambda>r. airline r = Some ''AA'' \<and> dep_time r = None)
               (rows example_routes)) = 1
   \<and> total_cancellations (example_airline_stats ! 0) = 1"
proof -
  have r: "analyze_routes stable_argsort example_routes
       = Inr (example_route_stats, example_route_stats, example_route_stats)"
    by code_simp
  have a: "analyze_airlines stable_argsort example_routes
       = Inr (example_airline_stats, example_airline_stats, example_airline_stats)"
    by code_simp
  have m0: "example_route_stats ! 0 \<in> set example_route_stats"
    and m1: "example_airline_stats ! 0 \<in> set example_airline_stats"
    by (simp_all add: example_route_stats_def example_airline_stats_def)
  have k: "key (example_route_stats ! 0) = ''JFK-LAX''"
    "key (example_airline_stats ! 0) = ''AA''"
    by (simp_all add: example_route_stats_def example_airline_stats_def)
  have d0: "length (filter (\<lambda>r. route r = Some ''JFK-LAX'' \<and> dep_time r = None)
               (rows example_routes)) = 1"
    by code_simp
  have d1: "length (filter (\<lambda>r. airline r = Some ''AA'' \<and> dep_time r = None)
               (rows example_routes)) = 1"
    by code_simp
  from total_cancellations_of_group [OF m0, of stable_argsort example_routes] r k d0
  have "total_cancellations (example_route_stats ! 0) = 1"
    by simp
  moreover from total_cancellations_of_group [OF m1, of stable_argsort example_routes] a k d1
  have "total_cancellations (example_airline_stats ! 0) = 1"
    by simp
  ultimately show ?thesis
    using r a m0 m1 d0 d1 by simp
qed

section \<open>Report generator\<close>





lemma generate_summary_report_Inl:
  "build_report rs as ws = Inl e \<Longrightarrow> generate_summary_report p rs as ws w = (Inl e, w)"
  by (simp add: generate_summary_report_def)

lemma generate_summary_report_Inr:
  "build_report rs as ws = Inr t \<Longrightarrow>
     generate_summary_report p rs as ws w
       = (if \<not> stdout_encodes p (newline @ t) then (Inl UnicodeEncodeError, w)
          else if \<not> file_encodes p t
          then (Inl UnicodeEncodeError,
                w\<lparr>stdout := stdout w @ [Text (newline @ t @ newline)],
                   files := (files w)(report_path \<mapsto> TextFile [])\<rparr>)
          else (Inr (), w\<lparr>stdout := stdout w @ [Text (newline @ t @ newline)],
                          files := (files w)(report_path \<mapsto> TextFile t)\<rparr>))"
  by (simp add: generate_summary_report_def print_def Let_def)



lemma longer_text_differs: "newline @ t @ newline \<noteq> t"
proof
  assume "newline @ t @ newline = t"
  then have "length (newline @ t @ newline) = length t"
    by simp
  then show False by (simp add: newline_def)
qed

text \<open>
  C4, as stated, does not hold.  On the example, with UTF-8 for standard output and for
  files, the generator succeeds; what it prints is a line break, the report text and
  the line break that \<open>print\<close> adds, while the file holds the report text alone.  The
  printed text and the file differ.
\<close>

theorem report_file_differs_from_stdout:
  "fst (generate_summary_report utf8_platform
       (example_route_stats, example_route_stats, example_route_stats)
       (example_airline_stats, example_airline_stats, example_airline_stats)
       example_wind_summary example_world) = Inr ()
   \<and> stdout example_world = []
   \<and> stdout (snd (generate_summary_report utf8_platform
       (example_route_stats, example_route_stats, example_route_stats)
       (example_airline_stats, example_airline_stats, example_airline_stats)
       example_wind_summary example_world)) = [Text (newline @ example_report @ newline)]
   \<and> files (snd (generate_summary_report utf8_platform
       (example_route_stats, example_route_stats, example_route_stats)
       (example_airline_stats, example_airline_stats, example_airline_stats)
       example_wind_summary example_world)) report_path = Some (TextFile example_report)
   \<and> newline @ example_report @ newline \<noteq> example_report"
proof -
  have "stdout example_world = []"
    by (simp add: example_world_def)
  moreover have "fst (generate_summary_report utf8_platform
       (example_route_stats, example_route_stats, example_route_stats)
       (example_airline_stats, example_airline_stats, example_airline_stats)
       example_wind_summary example_world) = Inr ()
   \<and> stdout (snd (generate_summary_report utf8_platform
       (example_route_stats, example_route_stats, example_route_stats)
       (example_airline_stats, example_airline_stats, example_airline_stats)
       example_wind_summary example_world)) = [Text (newline @ example_report @ newline)]
   \<and> files (snd (generate_summary_report utf8_platform
       (example_route_stats, example_route_stats, example_route_stats)
       (example_airline_stats, example_airline_stats, example_airline_stats)
       example_wind_summary example_world)) report_path = Some (TextFile example_report)"
    by code_simp
  ultimately show ?thesis using longer_text_differs [of example_report] by simp
qed

text \<open>
  C4, amended.  Whenever the generator succeeds there is one report text \<open>t\<close>, the text
  assembled from the look-ups: the file at the report path holds exactly \<open>t\<close>, standard
  output receives a line break, then \<open>t\<close>, then a line break, and no other file
  changes.
\<close>

theorem report_written_and_printed:
  assumes "generate_summary_report plat rs as ws w = (Inr u, w')"
  shows "\<exists>t. build_report rs as ws = Inr t
           \<and> stdout w' = stdout w @ [Text (newline @ t @ newline)]
           \<and> files w' report_path = Some (TextFile t)
           \<and> (\<forall>p. p \<noteq> report_path \<longrightarrow> files w' p = files w p)"
proof (cases "build_report rs as ws")
  case (Inl e)
  with assms show ?thesis by (simp add: generate_summary_report_Inl)
next
  case (Inr t)
  with assms show ?thesis
    by (auto simp: generate_summary_report_Inr split: if_splits)
qed

theorem report_written_and_printed_witness:
  "fst (generate_summary_report utf8_platform
       (example_route_stats, example_route_stats, example_route_stats)
       (example_airline_stats, example_airline_stats, example_airline_stats)
       example_wind_summary example_world) = Inr ()
   \<and> build_report
       (example_route_stats, example_route_stats, example_route_stats)
       (example_airline_stats, example_airline_stats, example_airline_stats)
       example_wind_summary = Inr example_report
   \<and> stdout (snd (generate_summary_report utf8_platform
       (example_route_stats, example_route_stats, example_route_stats)
       (example_airline_stats, example_airline_stats, example_airline_stats)
       example_wind_summary example_world))
       = stdout example_world @ [Text (newline @ example_report @ newline)]
   \<and> files (snd (generate_summary_report utf8_platform
       (example_route_stats, example_route_stats, example_route_stats)
       (example_airline_stats, example_airline_stats, example_airline_stats)
       example_wind_summary example_world)) report_path = Some (TextFile example_report)"
proof -
  have a: "fst (generate_summary_report utf8_platform
       (example_route_stats, example_route_stats, example_route_stats)
       (example_airline_stats, example_airline_stats, example_airline_stats)
       example_wind_summary example_world) = Inr ()"
    by code_simp
  have b: "build_report
       (example_route_stats, example_route_stats, example_route_stats)
       (example_airline_stats, example_airline_stats, example_airline_stats)
       example_wind_summary = Inr example_report"
    by code_simp
  from a have "generate_summary_report utf8_platform
       (example_route_stats, example_route_stats, example_route_stats)
       (example_airline_stats, example_airline_stats, example_airline_stats)
       example_wind_summary example_world
     = (Inr (), snd (generate_summary_report utf8_platform
       (example_route_stats, example_route_stats, example_route_stats)
       (example_airline_stats, example_airline_stats, example_airline_stats)
       example_wind_summary example_world))"
    by (simp add: prod_eq_iff)
  from report_written_and_printed [OF this] a b show ?thesis by auto
qed




section \<open>Pipeline\<close>

lemmas effect_defs = main_def load_data_def preprocess_data_def analyze_wind_impact_def
  generate_summary_report_def create_route_cancellations_plot_def
  create_airline_delays_plot_def create_wind_impact_plot_def print_wind_tables_def
  print_def Let_def

text \<open>
  C8.  Two runs of the pipeline on the same input files, with the same sorting routine
  and on the same platform, from any two worlds (for instance the second run from the world that the first one
  left): both end the same way, with the same error or the same route, airline and wind
  tables; both print the same text; and when they succeed both leave the same report
  file.  A run does not change the input files.
\<close>

theorem pipeline_deterministic:
  assumes "csv w1 = csv w2"
  shows "fst (main kind p w1) = fst (main kind p w2)
       \<and> drop (length (stdout w1)) (stdout (snd (main kind p w1)))
           = drop (length (stdout w2)) (stdout (snd (main kind p w2)))
       \<and> (\<not> isl (fst (main kind p w1)) \<longrightarrow>
            files (snd (main kind p w1)) report_path = files (snd (main kind p w2)) report_path
            \<and> files (snd (main kind p w1)) report_path \<noteq> None)
       \<and> csv (snd (main kind p w1)) = csv w1"
proof (cases "csv w2 ''flights2022.csv''")
  case None
  with assms show ?thesis by (simp add: effect_defs)
next
  case c1: (Some fl)
  show ?thesis
  proof (cases "csv w2 ''flights_weather2022.csv''")
    case None
    with assms c1 show ?thesis by (simp add: effect_defs)
  next
    case c2: (Some fw)
    show ?thesis
    proof (cases "assign_route fl")
      case (Inl e)
      with assms c1 c2 show ?thesis by (simp add: effect_defs)
    next
      case c3: (Inr fl')
      show ?thesis
      proof (cases "analyze_routes kind fl'")
        case (Inl e)
        with assms c1 c2 c3 show ?thesis by (simp add: effect_defs)
      next
        case c4: (Inr rs)
        show ?thesis
        proof (cases "analyze_airlines kind fl'")
          case (Inl e)
          with assms c1 c2 c3 c4 show ?thesis by (simp add: effect_defs)
        next
          case c5: (Inr as)
          show ?thesis
          proof (cases "assign_wind_group fw")
            case (Inl e)
            with assms c1 c2 c3 c4 c5 show ?thesis by (simp add: effect_defs)
          next
            case c6: (Inr fw')
            show ?thesis
            proof (cases "wind_grouped fw'")
              case (Inl e)
              with assms c1 c2 c3 c4 c5 c6 show ?thesis by (simp add: effect_defs)
            next
              case c7: (Inr wd)
              show ?thesis
              proof (cases "wind_summarize fw'")
                case (Inl e)
                with assms c1 c2 c3 c4 c5 c6 c7 show ?thesis by (simp add: effect_defs)
              next
                case c8: (Inr ws)
                show ?thesis
                proof (cases "build_report rs as ws")
                  case (Inl e)
                  with assms c1 c2 c3 c4 c5 c6 c7 c8 show ?thesis
                    by (simp add: effect_defs)
                next
                  case (Inr t)
                  with assms c1 c2 c3 c4 c5 c6 c7 c8 show ?thesis
                    by (simp add: effect_defs)
                qed
              qed
            qed
          qed
        qed
      qed
    qed
  qed
qed

theorem pipeline_deterministic_witness:
  "csv example_disk = csv (snd (main stable_argsort utf8_platform example_disk))
   \<and> \<not> isl (fst (main stable_argsort utf8_platform example_disk))
   \<and> fst (main stable_argsort utf8_platform example_disk)
       = fst (main stable_argsort utf8_platform
                (snd (main stable_argsort utf8_platform example_disk)))
   \<and> files (snd (main stable_argsort utf8_platform example_disk)) report_path
       = Some (TextFile example_report)
   \<and> files (snd (main stable_argsort utf8_platform
                    (snd (main stable_argsort utf8_platform example_disk)))) report_path
       = Some (TextFile example_report)"
proof -
  have c: "csv example_disk = csv (snd (main stable_argsort utf8_platform example_disk))"
    using pipeline_deterministic [of example_disk example_disk stable_argsort utf8_platform]
    by simp
  have ok: "\<not> isl (fst (main stable_argsort utf8_platform example_disk))"
    by code_simp
  have f: "files (snd (main stable_argsort utf8_platform example_disk)) report_path
       = Some (TextFile example_report)"
    by code_simp
  from pipeline_deterministic [OF c, of stable_argsort utf8_platform] ok f c
  show ?thesis by simp
qed

section \<open>Ranked views\<close>

lemma filter_by_position:
  "map (\<lambda>i. xs ! i) (filter (\<lambda>i. P (xs ! i)) [0..<length xs]) = filter P xs"
proof -
  have "filter P xs = filter P (map (\<lambda>i. xs ! i) [0..<length xs])"
    by (simp add: map_nth)
  also have "\<dots> = map (\<lambda>i. xs ! i) (filter (\<lambda>i. P (xs ! i)) [0..<length xs])"
    by (simp add: filter_map comp_def)
  finally show ?thesis by simp
qed

lemma mset_filter_split:
  "mset (filter (\<lambda>x. \<not> P x) xs) + mset (filter P xs) = mset xs"
  by (induction xs) simp_all

lemma filter_present: "filter (\<lambda>x. x \<noteq> None) xs = map Some (dropna xs)"
  by (induction xs) (auto simp: dropna_def)

lemma filter_absent: "filter (\<lambda>x. x = None) xs = replicate (length (filter (\<lambda>x. x = None) xs)) None"
  by (induction xs) auto

lemma ge_metric_Some: "ge_metric (Some x) (Some y) \<longleftrightarrow> y \<le> x"
  by (simp add: ge_metric_def)

lemma ge_metric_None: "ge_metric a None"
  by (simp add: ge_metric_def)

lemma descending_rev_sorted:
  assumes "sorted ys"
  shows "descending (map Some (rev ys) @ replicate k None)"
proof -
  have "sorted_wrt (\<lambda>a b. b \<le> a) (rev ys)"
    using assms by (simp add: sorted_wrt_rev)
  then have "sorted_wrt ge_metric (map Some (rev ys))"
    by (simp add: sorted_wrt_map ge_metric_Some)
  moreover have "sorted_wrt ge_metric (replicate k (None :: rat option))"
    by (induction k) (simp_all add: ge_metric_None)
  ultimately show ?thesis
    by (auto simp: descending_def sorted_wrt_append ge_metric_None)
qed

lemma nargsort_descending:
  assumes "argsort_ok kind (rev (dropna items))"
  shows "mset (nargsort kind False items) = mset [0..<length items]"
    and "descending (map (\<lambda>i. items ! i) (nargsort kind False items))"
proof -
  define n where "n = length items"
  define non_nan_idx where "non_nan_idx = filter (\<lambda>i. items ! i \<noteq> None) [0..<n]"
  define nan_idx where "nan_idx = filter (\<lambda>i. items ! i = None) [0..<n]"
  define rv where "rv = rev (dropna items)"
  define ri where "ri = rev non_nan_idx"
  define p where "p = kind rv"
  have res: "nargsort kind False items = rev (map (\<lambda>j. ri ! j) p) @ nan_idx"
    by (simp add: nargsort_def Let_def n_def non_nan_idx_def nan_idx_def rv_def ri_def p_def)
  have "map (\<lambda>i. items ! i) non_nan_idx = filter (\<lambda>x. x \<noteq> None) items"
    unfolding non_nan_idx_def n_def by (rule filter_by_position)
  also have "\<dots> = map Some (dropna items)"
    by (rule filter_present)
  finally have "rev (map (\<lambda>i. items ! i) non_nan_idx) = rev (map Some (dropna items))"
    by (rule arg_cong)
  then have vals: "map (\<lambda>i. items ! i) ri = map Some rv"
    unfolding ri_def rv_def by (simp only: rev_map)
  then have len: "length ri = length rv"
    using length_map by metis
  have p_mset: "mset p = mset [0..<length rv]" and p_sorted: "sorted (map (\<lambda>i. rv ! i) p)"
    using assms unfolding argsort_ok_def p_def rv_def by simp_all
  have p_bound: "j < length rv" if "j \<in> set p" for j
  proof -
    from that have "j \<in># mset p" by simp
    then have "j \<in> set [0..<length rv]" unfolding p_mset by simp
    then show ?thesis by simp
  qed
  have "mset (map (\<lambda>j. ri ! j) p) = image_mset (\<lambda>j. ri ! j) (mset p)"
    by (simp only: mset_map)
  also have "\<dots> = image_mset (\<lambda>j. ri ! j) (mset [0..<length ri])"
    by (simp only: p_mset len)
  also have "\<dots> = mset (map (\<lambda>j. ri ! j) [0..<length ri])"
    by (simp only: mset_map)
  also have "\<dots> = mset ri"
    by (simp only: map_nth)
  finally have idx: "mset (map (\<lambda>j. ri ! j) p) = mset non_nan_idx"
    by (simp add: ri_def)
  have split: "mset non_nan_idx + mset nan_idx = mset [0..<n]"
    unfolding non_nan_idx_def nan_idx_def by (rule mset_filter_split)
  have "mset (nargsort kind False items) = mset (map (\<lambda>j. ri ! j) p) + mset nan_idx"
    by (simp only: res mset_append mset_rev)
  also have "\<dots> = mset [0..<n]"
    by (simp only: idx split)
  finally show "mset (nargsort kind False items) = mset [0..<length items]"
    unfolding n_def .
  have "items ! (ri ! j) = Some (rv ! j)" if "j \<in> set p" for j
  proof -
    have j: "j < length ri" using p_bound [OF that] len by simp
    then have "items ! (ri ! j) = map (\<lambda>i. items ! i) ri ! j" by simp
    also have "\<dots> = Some (rv ! j)" unfolding vals using j len by simp
    finally show ?thesis .
  qed
  then have present: "map (\<lambda>i. items ! i) (map (\<lambda>j. ri ! j) p) = map Some (map (\<lambda>j. rv ! j) p)"
    by simp
  have "map (\<lambda>i. items ! i) nan_idx = filter (\<lambda>x. x = None) items"
    unfolding nan_idx_def n_def by (rule filter_by_position)
  then obtain k where absent: "map (\<lambda>i. items ! i) nan_idx = replicate k None"
    using filter_absent [of items] by metis
  have "map (\<lambda>i. items ! i) (nargsort kind False items)
          = map Some (rev (map (\<lambda>j. rv ! j) p)) @ replicate k None"
    by (simp add: res rev_map present [simplified] absent comp_def)
  then show "descending (map (\<lambda>i. items ! i) (nargsort kind False items))"
    using descending_rev_sorted [OF p_sorted] by simp
qed

lemma sort_values_descending:
  assumes "argsort_ok kind (rev (dropna (map by df)))"
  shows "mset (sort_values kind by False df) = mset df"
    and "descending (map by (sort_values kind by False df))"
proof -
  let ?r = "nargsort kind False (map by df)"
  have m: "mset ?r = mset [0..<length df]"
    using nargsort_descending(1) [OF assms] by simp
  have "mset (sort_values kind by False df) = image_mset (\<lambda>i. df ! i) (mset ?r)"
    by (simp only: sort_values_def mset_map)
  also have "\<dots> = mset (map (\<lambda>i. df ! i) [0..<length df])"
    by (simp only: m mset_map)
  also have "\<dots> = mset df"
    by (simp only: map_nth)
  finally show "mset (sort_values kind by False df) = mset df" .
  have b: "i < length df" if "i \<in> set ?r" for i
  proof -
    from that have "i \<in># mset ?r" by simp
    then have "i \<in> set [0..<length df]" unfolding m by simp
    then show ?thesis by simp
  qed
  have "map by (sort_values kind by False df) = map (\<lambda>i. map by df ! i) ?r"
    using b by (simp add: sort_values_def)
  then show "descending (map by (sort_values kind by False df))"
    using nargsort_descending(2) [OF assms] by simp
qed

lemma descending_take: "descending ms \<Longrightarrow> descending (take n ms)"
  unfolding descending_def by (rule sorted_wrt_take)

lemma head_ranked_view:
  assumes "argsort_ok kind (rev (dropna (map by agg)))"
  shows "ranked_view by agg (head TOP_N (sort_values kind by False agg))"
proof -
  let ?full = "sort_values kind by False agg"
  have "descending (map by (take TOP_N ?full))"
    using sort_values_descending(2) [OF assms]
    by (simp add: take_map [symmetric] descending_take)
  moreover have "length (take TOP_N ?full) \<le> 9"
    by (simp add: TOP_N_def)
  ultimately show ?thesis
    unfolding ranked_view_def head_def
    using sort_values_descending [OF assms] by blast
qed

lemma analyze_routes_views:
  assumes "analyze_routes kind df = Inr (agg, td, tc)"
  shows "td = head TOP_N (sort_values kind by_delay False agg)"
    and "tc = head TOP_N (sort_values kind by_cancellations False agg)"
  using assms by (auto simp: analyze_routes_def Let_def split: sum.splits)

lemma analyze_airlines_views:
  assumes "analyze_airlines kind df = Inr (agg, td, tc)"
  shows "td = head TOP_N (sort_values kind by_delay False agg)"
    and "tc = head TOP_N (sort_values kind by_cancellations False agg)"
  using assms by (auto simp: analyze_airlines_def Let_def split: sum.splits)

lemma ge_metric_total: "ge_metric a b \<or> ge_metric b a"
  by (auto simp: ge_metric_def split: option.splits)

lemma ge_metric_trans: "ge_metric a b \<Longrightarrow> ge_metric b c \<Longrightarrow> ge_metric a c"
  by (auto simp: ge_metric_def split: option.splits)

lemma ge_metric_antisym: "ge_metric a b \<Longrightarrow> ge_metric b a \<Longrightarrow> a = b"
  by (auto simp: ge_metric_def split: option.splits)

lemma mset_insert_ranked: "mset (insert_ranked by x ys) = add_mset x (mset ys)"
  by (induction ys) simp_all

lemma set_insert_ranked: "set (insert_ranked by x ys) = insert x (set ys)"
  by (induction ys) auto

lemma sorted_insert_ranked:
  assumes "sorted_wrt (\<lambda>r s. ge_metric (by r) (by s)) ys"
  shows "sorted_wrt (\<lambda>r s. ge_metric (by r) (by s)) (insert_ranked by x ys)"
  using assms
proof (induction ys)
  case Nil
  then show ?case by simp
next
  case (Cons y ys)
  show ?case
  proof (cases "ge_metric (by x) (by y)")
    case True
    then have "ge_metric (by x) (by z)" if "z \<in> set ys" for z
      using that Cons.prems ge_metric_trans [of "by x" "by y" "by z"] by auto
    with True Cons.prems show ?thesis by auto
  next
    case False
    then have "ge_metric (by y) (by x)"
      using ge_metric_total [of "by x" "by y"] by simp
    with False Cons show ?thesis by (auto simp: set_insert_ranked)
  qed
qed

lemma stable_ranking_perm: "mset (stable_ranking by xs) = mset xs"
  unfolding stable_ranking_def by (induction xs) (simp_all add: mset_insert_ranked)

lemma stable_ranking_descending: "descending (map by (stable_ranking by xs))"
proof -
  have "sorted_wrt (\<lambda>r s. ge_metric (by r) (by s)) (foldr (insert_ranked by) xs [])"
    by (induction xs) (simp_all add: sorted_insert_ranked)
  then show ?thesis
    by (simp add: descending_def stable_ranking_def sorted_wrt_map)
qed

lemma descending_unique:
  assumes "descending (map by xs)" and "descending (map by ys)"
    and "mset xs = mset ys" and "distinct (map by xs)"
  shows "xs = ys"
  using assms
proof (induction xs arbitrary: ys)
  case Nil
  then show ?case by simp
next
  case (Cons x xs)
  then obtain y ys' where ys: "ys = y # ys'"
    by (cases ys) auto
  have inj: "by a = by b \<Longrightarrow> a = b" if "a \<in> set (x # xs)" "b \<in> set (x # xs)" for a b
    using Cons.prems(4) that by (meson distinct_map inj_on_def)
  have "x = y"
  proof (rule ccontr)
    assume ne: "x \<noteq> y"
    have "x \<in># mset ys" unfolding Cons.prems(3) [symmetric] by simp
    then have "x \<in> set ys'" using ne ys by simp
    then have 1: "ge_metric (by y) (by x)"
      using Cons.prems(2) ys by (auto simp: descending_def sorted_wrt_map)
    have "y \<in># mset (x # xs)" unfolding Cons.prems(3) ys by simp
    then have yin: "y \<in> set xs" using ne by simp
    then have 2: "ge_metric (by x) (by y)"
      using Cons.prems(1) by (auto simp: descending_def sorted_wrt_map)
    from ge_metric_antisym [OF 2 1] inj [of x y] yin ne show False by simp
  qed
  moreover have "xs = ys'"
  proof (rule Cons.IH)
    show "descending (map by xs)"
      using Cons.prems(1) by (simp add: descending_def)
    show "descending (map by ys')"
      using Cons.prems(2) ys by (simp add: descending_def)
    show "mset xs = mset ys'"
      using Cons.prems(3) ys \<open>x = y\<close> by simp
    show "distinct (map by xs)"
      using Cons.prems(4) by simp
  qed
  ultimately show ?case using ys by simp
qed

lemma head_stable_without_ties:
  assumes "argsort_ok kind (rev (dropna (map by agg)))" and "distinct (map by agg)"
  shows "head TOP_N (sort_values kind by False agg) = stable_top_n by agg"
proof -
  have d: "distinct (map by (stable_ranking by agg))"
  proof -
    have "mset (map by (stable_ranking by agg)) = mset (map by agg)"
      by (simp only: mset_map stable_ranking_perm)
    then show ?thesis using assms(2) by (metis mset_eq_imp_distinct_iff)
  qed
  have "stable_ranking by agg = sort_values kind by False agg"
    using stable_ranking_descending sort_values_descending(2) [OF assms(1)] _ d
  proof (rule descending_unique)
    show "mset (stable_ranking by agg) = mset (sort_values kind by False agg)"
      by (simp only: stable_ranking_perm sort_values_descending(1) [OF assms(1)])
  qed
  then show ?thesis by (simp add: head_def stable_top_n_def)
qed

text \<open>
  C1, as stated, does not hold.  With the default sorting routine and eighteen routes
  that all have the same mean delay and the same number of cancellations, both ranked
  views of the route aggregator begin with the first two routes and go on with the
  seventeenth, sixteenth, ...; the stable selection is the first nine routes in the
  order of the aggregate table.
\<close>

theorem ranked_views_not_stable:
  "\<not> isl (analyze_routes quicksort_argsort tied_routes)
   \<and> map key (fst (projr (analyze_routes quicksort_argsort tied_routes)))
       = [''JFK-A'', ''JFK-B'', ''JFK-C'', ''JFK-D'', ''JFK-E'', ''JFK-F'', ''JFK-G'',
          ''JFK-H'', ''JFK-I'', ''JFK-J'', ''JFK-K'', ''JFK-L'', ''JFK-M'', ''JFK-N'',
          ''JFK-O'', ''JFK-P'', ''JFK-Q'', ''JFK-R'']
   \<and> map mean_dep_delay (fst (projr (analyze_routes quicksort_argsort tied_routes)))
       = replicate 18 (Some 5)
   \<and> map total_cancellations (fst (projr (analyze_routes quicksort_argsort tied_routes)))
       = replicate 18 0
   \<and> map key (fst (snd (projr (analyze_routes quicksort_argsort tied_routes))))
       = [''JFK-A'', ''JFK-B'', ''JFK-Q'', ''JFK-P'', ''JFK-O'', ''JFK-N'', ''JFK-M'',
          ''JFK-L'', ''JFK-K'']
   \<and> map key (stable_top_n by_delay
                 (fst (projr (analyze_routes quicksort_argsort tied_routes))))
       = [''JFK-A'', ''JFK-B'', ''JFK-C'', ''JFK-D'', ''JFK-E'', ''JFK-F'', ''JFK-G'',
          ''JFK-H'', ''JFK-I'']
   \<and> map key (snd (snd (projr (analyze_routes quicksort_argsort tied_routes))))
       = [''JFK-A'', ''JFK-B'', ''JFK-Q'', ''JFK-P'', ''JFK-O'', ''JFK-N'', ''JFK-M'',
          ''JFK-L'', ''JFK-K'']
   \<and> map key (stable_top_n by_cancellations
                 (fst (projr (analyze_routes quicksort_argsort tied_routes))))
       = [''JFK-A'', ''JFK-B'', ''JFK-C'', ''JFK-D'', ''JFK-E'', ''JFK-F'', ''JFK-G'',
          ''JFK-H'', ''JFK-I'']
   \<and> fst (snd (projr (analyze_routes quicksort_argsort tied_routes)))
       \<noteq> stable_top_n by_delay (fst (projr (analyze_routes quicksort_argsort tied_routes)))
   \<and> snd (snd (projr (analyze_routes quicksort_argsort tied_routes)))
       \<noteq> stable_top_n by_cancellations
             (fst (projr (analyze_routes quicksort_argsort tied_routes)))"
  by code_simp

text \<open>
  C1, amended.  Each ranked view of the route aggregator, and of the airline aggregator,
  has at most 9 rows.  Take any sorting routine and suppose it keeps the promise of the
  library (\<open>argsort_ok\<close>) on the values that the descending sort of a metric hands to
  it.  Then the view ranked by this metric is in descending order of the metric with the
  NaN means last, and consists of the first rows of a descending rearrangement of the
  aggregate table.  When no two groups share the value of the metric, the view is the
  stable selection; the order among groups that share it is left to the routine.
\<close>

theorem ranked_views_descending:
  "(analyze_routes kind df = Inr (agg, td, tc) \<longrightarrow>
      length td \<le> 9 \<and> length tc \<le> 9
      \<and> (argsort_ok kind (rev (dropna (map by_delay agg))) \<longrightarrow>
         ranked_view by_delay agg td
         \<and> (distinct (map by_delay agg) \<longrightarrow> td = stable_top_n by_delay agg))
      \<and> (argsort_ok kind (rev (dropna (map by_cancellations agg))) \<longrightarrow>
         ranked_view by_cancellations agg tc
         \<and> (distinct (map by_cancellations agg) \<longrightarrow>
              tc = stable_top_n by_cancellations agg)))
   \<and> (analyze_airlines kind df = Inr (agg, td, tc) \<longrightarrow>
      length td \<le> 9 \<and> length tc \<le> 9
      \<and> (argsort_ok kind (rev (dropna (map by_delay agg))) \<longrightarrow>
         ranked_view by_delay agg td
         \<and> (distinct (map by_delay agg) \<longrightarrow> td = stable_top_n by_delay agg))
      \<and> (argsort_ok kind (rev (dropna (map by_cancellations agg))) \<longrightarrow>
         ranked_view by_cancellations agg tc
         \<and> (distinct (map by_cancellations agg) \<longrightarrow>
              tc = stable_top_n by_cancellations agg)))"
proof -
  have v: "length td \<le> 9 \<and> length tc \<le> 9
      \<and> (argsort_ok kind (rev (dropna (map by_delay agg))) \<longrightarrow>
         ranked_view by_delay agg td
         \<and> (distinct (map by_delay agg) \<longrightarrow> td = stable_top_n by_delay agg))
      \<and> (argsort_ok kind (rev (dropna (map by_cancellations agg))) \<longrightarrow>
         ranked_view by_cancellations agg tc
         \<and> (distinct (map by_cancellations agg) \<longrightarrow>
              tc = stable_top_n by_cancellations agg))"
    if "td = head TOP_N (sort_values kind by_delay False agg)"
      and "tc = head TOP_N (sort_values kind by_cancellations False agg)"
  proof -
    have "length td \<le> 9" "length tc \<le> 9"
      unfolding that by (simp_all add: head_def TOP_N_def)
    then show ?thesis
      unfolding that
      using head_ranked_view [of kind by_delay agg]
        head_ranked_view [of kind by_cancellations agg]
        head_stable_without_ties [of kind by_delay agg]
        head_stable_without_ties [of kind by_cancellations agg]
      by blast
  qed
  show ?thesis
    using v analyze_routes_views [of kind df agg td tc]
      analyze_airlines_views [of kind df agg td tc]
    by blast
qed

theorem ranked_views_descending_witness:
  "\<not> isl (analyze_routes quicksort_argsort tied_routes)
   \<and> argsort_ok quicksort_argsort
       (rev (dropna (map by_delay (fst (projr (analyze_routes quicksort_argsort tied_routes))))))
   \<and> argsort_ok quicksort_argsort
       (rev (dropna (map by_cancellations
                       (fst (projr (analyze_routes quicksort_argsort tied_routes))))))
   \<and> ranked_view by_delay
       (fst (projr (analyze_routes quicksort_argsort tied_routes)))
       (fst (snd (projr (analyze_routes quicksort_argsort tied_routes))))
   \<and> ranked_view by_cancellations
       (fst (projr (analyze_routes quicksort_argsort tied_routes)))
       (snd (snd (projr (analyze_routes quicksort_argsort tied_routes))))
   \<and> analyze_airlines quicksort_argsort example_routes
       = Inr (example_airline_stats, example_airline_stats, example_airline_stats)
   \<and> argsort_ok quicksort_argsort (rev (dropna (map by_delay example_airline_stats)))
   \<and> argsort_ok quicksort_argsort (rev (dropna (map by_cancellations example_airline_stats)))
   \<and> distinct (map by_delay example_airline_stats)
   \<and> distinct (map by_cancellations example_airline_stats)
   \<and> ranked_view by_delay example_airline_stats example_airline_stats
   \<and> ranked_view by_cancellations example_airline_stats example_airline_stats
   \<and> example_airline_stats = stable_top_n by_delay example_airline_stats
   \<and> example_airline_stats = stable_top_n by_cancellations example_airline_stats"
proof -
  define r where "r = projr (analyze_routes quicksort_argsort tied_routes)"
  have ok: "\<not> isl (analyze_routes quicksort_argsort tied_routes)"
    by code_simp
  then have e: "analyze_routes quicksort_argsort tied_routes = Inr (fst r, fst (snd r), snd (snd r))"
    unfolding r_def by (cases "analyze_routes quicksort_argsort tied_routes") simp_all
  have s: "argsort_ok quicksort_argsort
       (rev (dropna (map by_delay (fst (projr (analyze_routes quicksort_argsort tied_routes))))))"
    "argsort_ok quicksort_argsort
       (rev (dropna (map by_cancellations
                       (fst (projr (analyze_routes quicksort_argsort tied_routes))))))"
    by code_simp+
  have a: "analyze_airlines quicksort_argsort example_routes
       = Inr (example_airline_stats, example_airline_stats, example_airline_stats)"
    by code_simp
  have t: "argsort_ok quicksort_argsort (rev (dropna (map by_delay example_airline_stats)))"
    "argsort_ok quicksort_argsort (rev (dropna (map by_cancellations example_airline_stats)))"
    by code_simp+
  have d: "distinct (map by_delay example_airline_stats)"
    "distinct (map by_cancellations example_airline_stats)"
    by (simp_all add: example_airline_stats_def by_delay_def by_cancellations_def)
  from ranked_views_descending [of quicksort_argsort tied_routes "fst r" "fst (snd r)"
      "snd (snd r)"] e s
  have 1: "ranked_view by_delay (fst r) (fst (snd r))
      \<and> ranked_view by_cancellations (fst r) (snd (snd r))"
    unfolding r_def by simp
  from ranked_views_descending [of quicksort_argsort example_routes example_airline_stats
      example_airline_stats example_airline_stats] a t d
  have 2: "ranked_view by_delay example_airline_stats example_airline_stats
   \<and> ranked_view by_cancellations example_airline_stats example_airline_stats
   \<and> example_airline_stats = stable_top_n by_delay example_airline_stats
   \<and> example_airline_stats = stable_top_n by_cancellations example_airline_stats"
    by simp
  from ok s a t d 1 2 show ?thesis
    unfolding r_def by simp
qed

end
